theory Spec2Isabelle
  imports Main "HOL-Library.Product_Lexorder"
begin

section \<open>Exceptions, results and the trace of driver calls\<close>

text \<open>
  The automation drives an external browser. Every answer the browser gives is an input
  of the model (a field of an environment record), every call that can raise has a
  result of type \<open>'a res\<close>, and the calls a function makes are returned as a list of
  events next to its result.
\<close>

datatype exn =
    TimeoutException
  | KeyError
  | NoSuchElementException
  | StaleElementReferenceException
  | NoSuchWindowException
  | WebDriverException
  | TypeError
  | IndexError
  | UnboundLocalError
  | DatabaseError

datatype 'a res = Ok 'a | Raise exn

datatype event =
    ClickAttempt nat
  | TierAttempt nat
  | ProcessingJob nat
  | Locate nat
  | Fill nat

definition log_first :: "event \<Rightarrow> 'a \<times> event list \<Rightarrow> 'a \<times> event list" where
  "log_first ev p = (fst p, ev # snd p)"

section \<open>Click helpers (dice\_step\_10.py and dice\_step\_4\_apply\_to\_job\_index.py)\<close>

text \<open>
  \<open>_click_button_safely(driver, button)\<close>: four click methods are tried in order.
  \<open>click_method i\<close> is the outcome of calling method \<open>i\<close>, \<open>still_displayed i\<close>
  the outcome of \<open>button.is_displayed()\<close> read after it.
\<close>

record button_click_env =
  click_method :: "nat \<Rightarrow> unit res"
  still_displayed :: "nat \<Rightarrow> bool res"

fun click_methods_loop :: "button_click_env \<Rightarrow> nat list \<Rightarrow> bool \<times> event list" where
  "click_methods_loop env [] = (True, [])"
| "click_methods_loop env (i # rest) =
     log_first (ClickAttempt i)
       (case click_method env i of
          Raise e \<Rightarrow> click_methods_loop env rest
        | Ok u \<Rightarrow>
            (case still_displayed env i of
               Raise e \<Rightarrow> (True, [])
             | Ok shown \<Rightarrow> if \<not> shown then (True, []) else click_methods_loop env rest))"

definition click_button_safely :: "button_click_env \<Rightarrow> bool \<times> event list" where
  "click_button_safely env = click_methods_loop env [0, 1, 2, 3]"

text \<open>
  \<open>_click_job_element(driver, element, job_index)\<close>: the element is scrolled into view
  (an exception there is caught by the outer handler, which returns False), highlighted
  (exceptions ignored), then four click strategies are tried. After strategy \<open>i\<close> the
  code reads \<open>driver.current_url != element.get_attribute('href')\<close>; \<open>url_differs i\<close>
  is the outcome of that comparison.
\<close>

record job_click_env =
  scroll_into_view :: "unit res"
  click_strategy :: "nat \<Rightarrow> unit res"
  url_differs :: "nat \<Rightarrow> bool res"

fun click_strategies_loop :: "job_click_env \<Rightarrow> nat list \<Rightarrow> bool \<times> event list" where
  "click_strategies_loop env [] = (True, [])"
| "click_strategies_loop env (i # rest) =
     log_first (ClickAttempt i)
       (case click_strategy env i of
          Raise e \<Rightarrow> click_strategies_loop env rest
        | Ok u \<Rightarrow>
            (case url_differs env i of
               Raise e \<Rightarrow> click_strategies_loop env rest
             | Ok differs \<Rightarrow> if differs then (True, []) else click_strategies_loop env rest))"

definition click_job_element :: "job_click_env \<Rightarrow> bool \<times> event list" where
  "click_job_element env =
     (case scroll_into_view env of
        Raise e \<Rightarrow> (False, [])
      | Ok u \<Rightarrow> click_strategies_loop env [0, 1, 2, 3])"

text \<open>A click attempt is unconfirmed when the method raised or its check saw no change.\<close>

definition button_unconfirmed :: "button_click_env \<Rightarrow> nat \<Rightarrow> bool" where
  "button_unconfirmed env i =
     (case click_method env i of
        Raise e \<Rightarrow> True
      | Ok u \<Rightarrow> still_displayed env i = Ok True)"

definition job_unconfirmed :: "job_click_env \<Rightarrow> nat \<Rightarrow> bool" where
  "job_unconfirmed env i =
     (case click_strategy env i of
        Raise e \<Rightarrow> True
      | Ok u \<Rightarrow> (case url_differs env i of Raise e \<Rightarrow> True | Ok differs \<Rightarrow> \<not> differs))"

section \<open>Strings\<close>

text \<open>Python's \<open>s.startswith(p)\<close> and \<open>p in s\<close> on strings.\<close>

fun starts_with :: "string \<Rightarrow> string \<Rightarrow> bool" where
  "starts_with s [] = True"
| "starts_with [] (c # p) = False"
| "starts_with (d # s) (c # p) = (d = c \<and> starts_with s p)"

fun str_contains :: "string \<Rightarrow> string \<Rightarrow> bool" where
  "str_contains [] p = (p = [])"
| "str_contains (d # s) p = (starts_with (d # s) p \<or> str_contains s p)"

definition job_detail :: string where
  "job_detail = ''/job-detail/''"

section \<open>Cataloging (dice\_step\_3\_catalog\_jobs.py, dice\_step\_4\_apply\_to\_job\_index.py)\<close>

text \<open>
  A page is the list of its elements in document order. An element carries what the
  script can read from it: its href, the outcome of \<open>is_displayed()\<close>, whether
  \<open>get_attribute\<close> raises on it (a stale handle), the outcome of reading its
  \<open>location\<close> (x, y), and the specific job-card selectors (numbers 0 to 7 of
  \<open>job_card_selectors\<close>) whose structural part it matches. Selector 8 is the generic
  \<open>a[href*='/job-detail/']\<close>; every selector requires the href to contain
  \<open>/job-detail/\<close>. \<open>selector_error i\<close> makes \<open>find_elements\<close> raise for selector i.
\<close>

record element =
  href :: "string option"
  is_displayed :: "bool res"
  attr_error :: "exn option"
  location :: "(int \<times> int) res"
  marks :: "nat list"

record page =
  dom :: "element list"
  selector_error :: "nat \<Rightarrow> exn option"

definition get_attribute_href :: "element \<Rightarrow> string option res" where
  "get_attribute_href e = (case attr_error e of Some x \<Rightarrow> Raise x | None \<Rightarrow> Ok (href e))"

definition css_match :: "nat \<Rightarrow> element \<Rightarrow> bool" where
  "css_match i e =
     ((i = 8 \<or> i \<in> set (marks e)) \<and>
      (case href e of None \<Rightarrow> False | Some h \<Rightarrow> str_contains h job_detail))"

definition find_elements :: "page \<Rightarrow> nat \<Rightarrow> element list res" where
  "find_elements pg i =
     (case selector_error pg i of
        Some x \<Rightarrow> Raise x
      | None \<Rightarrow> Ok (filter (css_match i) (dom pg)))"

text \<open>
  The inner loop of \<open>_find_all_job_elements\<close>: the state is \<open>(seen_hrefs,
  all_job_elements)\<close>. An element that raises is skipped.
\<close>

fun collect_elements ::
  "element list \<Rightarrow> string set \<times> element list \<Rightarrow> string set \<times> element list" where
  "collect_elements [] st = st"
| "collect_elements (e # es) (seen, acc) =
     (case is_displayed e of
        Raise x \<Rightarrow> collect_elements es (seen, acc)
      | Ok shown \<Rightarrow>
          if \<not> shown then collect_elements es (seen, acc)
          else
            (case get_attribute_href e of
               Raise x \<Rightarrow> collect_elements es (seen, acc)
             | Ok None \<Rightarrow> collect_elements es (seen, acc)
             | Ok (Some h) \<Rightarrow>
                 if h \<noteq> [] \<and> str_contains h job_detail \<and> h \<notin> seen
                 then collect_elements es (insert h seen, acc @ [e])
                 else collect_elements es (seen, acc)))"

text \<open>The outer loop over the selectors; a selector that raises is skipped.\<close>

fun collect_selectors ::
  "page \<Rightarrow> nat list \<Rightarrow> string set \<times> element list \<Rightarrow> string set \<times> element list" where
  "collect_selectors pg [] st = st"
| "collect_selectors pg (i # rest) st =
     (case find_elements pg i of
        Raise x \<Rightarrow> collect_selectors pg rest st
      | Ok es \<Rightarrow> collect_selectors pg rest (collect_elements es st))"

text \<open>
  \<open>all_job_elements.sort(key=lambda elem: (elem.location['y'], elem.location['x']))\<close>
  inside try/except: Python computes every key before it sorts, so when one key raises
  the list is left as it was. Python's sort is stable, as \<open>sort_key\<close> is.
\<close>

definition location_ok :: "element \<Rightarrow> bool" where
  "location_ok e = (case location e of Ok p \<Rightarrow> True | Raise x \<Rightarrow> False)"

definition position_key :: "element \<Rightarrow> int \<times> int" where
  "position_key e = (case location e of Ok (x, y) \<Rightarrow> (y, x) | Raise x \<Rightarrow> (0, 0))"

definition sort_by_position :: "element list \<Rightarrow> element list" where
  "sort_by_position es =
     (if list_all location_ok es then sort_key position_key es else es)"

definition find_all_job_elements :: "page \<Rightarrow> element list" where
  "find_all_job_elements pg =
     sort_by_position (snd (collect_selectors pg [0, 1, 2, 3, 4, 5, 6, 7, 8] ({}, [])))"

text \<open>
  The distinct listing hrefs of the DOM, and those of the elements the script can see
  (displayed, and readable without an exception).
\<close>

definition listing_href :: "element \<Rightarrow> string option" where
  "listing_href e =
     (case href e of
        None \<Rightarrow> None
      | Some h \<Rightarrow> if str_contains h job_detail then Some h else None)"

definition visible_listing_href :: "element \<Rightarrow> string option" where
  "visible_listing_href e =
     (if is_displayed e = Ok True \<and> attr_error e = None then listing_href e else None)"

definition dom_listing_hrefs :: "page \<Rightarrow> string list" where
  "dom_listing_hrefs pg = remdups (List.map_filter listing_href (dom pg))"

definition visible_listing_hrefs :: "page \<Rightarrow> string list" where
  "visible_listing_hrefs pg = remdups (List.map_filter visible_listing_href (dom pg))"

section \<open>The browser: windows, the focused window, the stored original window\<close>

text \<open>
  The part of the browser the loop controller depends on: the open windows with the
  address each shows (in the order of \<open>driver.window_handles\<close>), the handle the driver
  is focused on, and the attribute \<open>driver.original_window\<close> that step 4 sets.
  WebDriver raises NoSuchWindowException when the focused window is closed.
\<close>

record browser =
  windows :: "(nat \<times> string) list"
  current :: nat
  original_window :: "nat option"

definition window_handles :: "browser \<Rightarrow> nat list" where
  "window_handles b = map fst (windows b)"

definition current_window_handle :: "browser \<Rightarrow> nat res" where
  "current_window_handle b =
     (if current b \<in> set (window_handles b) then Ok (current b)
      else Raise NoSuchWindowException)"

definition current_url :: "browser \<Rightarrow> string res" where
  "current_url b =
     (case map_of (windows b) (current b) of
        None \<Rightarrow> Raise NoSuchWindowException
      | Some u \<Rightarrow> Ok u)"

definition switch_to_window :: "nat \<Rightarrow> browser \<Rightarrow> browser res" where
  "switch_to_window h b =
     (if h \<in> set (window_handles b) then Ok (b\<lparr>current := h\<rparr>)
      else Raise NoSuchWindowException)"

definition close_window :: "browser \<Rightarrow> browser res" where
  "close_window b =
     (if current b \<in> set (window_handles b)
      then Ok (b\<lparr>windows := filter (\<lambda>w. fst w \<noteq> current b) (windows b)\<rparr>)
      else Raise NoSuchWindowException)"

text \<open>
  A driver call either yields the next browser or fails with an exception, leaving the
  browser as it is at that moment.
\<close>

datatype outcome = Done browser | Failed exn browser

definition attempt :: "browser res \<Rightarrow> browser \<Rightarrow> outcome" where
  "attempt r b = (case r of Ok b' \<Rightarrow> Done b' | Raise x \<Rightarrow> Failed x b)"

definition and_then :: "outcome \<Rightarrow> (browser \<Rightarrow> outcome) \<Rightarrow> outcome" where
  "and_then m f = (case m of Done b \<Rightarrow> f b | Failed x b \<Rightarrow> Failed x b)"

text \<open>
  What \<open>driver.get(url)\<close> does is an input of the model, one for each call in the source:
  the call returns with the focused window showing some address (the requested one, or
  another after a redirect), or it raises, with the window left on its old address or on
  a new one.
\<close>

datatype page_load = Loaded string | LoadFailed exn "string option"

definition show_address :: "string \<Rightarrow> browser \<Rightarrow> browser" where
  "show_address u b =
     b\<lparr>windows := map (\<lambda>w. if fst w = current b then (fst w, u) else w) (windows b)\<rparr>"

definition driver_get :: "(string \<Rightarrow> page_load) \<Rightarrow> string \<Rightarrow> browser \<Rightarrow> outcome" where
  "driver_get load url b =
     (if current b \<in> set (window_handles b) then
        (case load url of
           Loaded u \<Rightarrow> Done (show_address u b)
         | LoadFailed x None \<Rightarrow> Failed x b
         | LoadFailed x (Some u) \<Rightarrow> Failed x (show_address u b))
      else Failed NoSuchWindowException b)"

text \<open>The listing hrefs visible among the elements of a list.\<close>

definition vl :: "element list \<Rightarrow> string set" where
  "vl es = {h. \<exists>e\<in>set es. visible_listing_href e = Some h}"

text \<open>Two concrete pages: one whose only listing link is hidden, one with a duplicate.\<close>

definition hidden_listing_page :: page where
  "hidden_listing_page =
     \<lparr>dom = [\<lparr>href = Some ''/job-detail/1'', is_displayed = Ok False, attr_error = None,
              location = Ok (0, 0), marks = []\<rparr>],
      selector_error = (\<lambda>i. None)\<rparr>"

definition two_listing_page :: page where
  "two_listing_page =
     \<lparr>dom = [\<lparr>href = Some ''/job-detail/2'', is_displayed = Ok True, attr_error = None,
              location = Ok (0, 50), marks = [0, 2]\<rparr>,
             \<lparr>href = Some ''/job-detail/1'', is_displayed = Ok True, attr_error = None,
              location = Ok (0, 10), marks = [0]\<rparr>,
             \<lparr>href = Some ''/job-detail/2'', is_displayed = Ok True, attr_error = None,
              location = Ok (5, 50), marks = []\<rparr>],
      selector_error = (\<lambda>i. None)\<rparr>"

section \<open>Selecting a catalog entry (dice\_step\_4\_apply\_to\_job\_index.py)\<close>

text \<open>
  The results of \<open>step_4_apply_to_job_index\<close>: the dictionary
  \<open>{'success': True, 'job_index', 'job_url'}\<close> is \<open>Selected\<close>, the dictionary
  \<open>{'success': False, 'job_index', 'error'}\<close> is \<open>NotSelected\<close>; the messages are
  the constructors of \<open>step4_error\<close>.
\<close>

datatype step4_error =
    NoJobElements
  | IndexUnavailable int nat
  | AlreadyApplied int
  | ClickFailed
  | NewTabNotJobDetail
  | UrlUnchanged
  | Unexpected exn

datatype step4_result = Selected int string | NotSelected int step4_error

text \<open>Python's \<open>xs[i]\<close>: a negative index counts from the end, out of range raises.\<close>

definition py_index :: "'a list \<Rightarrow> int \<Rightarrow> 'a res" where
  "py_index xs i =
     (if 0 \<le> i \<and> i < int (length xs) then Ok (xs ! nat i)
      else if i < 0 \<and> - int (length xs) \<le> i then Ok (xs ! nat (int (length xs) + i))
      else Raise IndexError)"

text \<open>
  What step 4 reads from its surroundings: the results page, the answer of
  \<open>_check_if_already_applied\<close> (which catches every exception), the outcomes of the
  click strategies, and the browser as the click and the wait after it leave it.
\<close>

record step4_env =
  listing_page :: page
  already_applied :: bool
  job_click :: job_click_env
  after_click :: browser

definition step4_failed ::
  "int \<Rightarrow> step4_error \<Rightarrow> browser \<Rightarrow> event list \<Rightarrow> step4_result option \<times> browser \<times> event list" where
  "step4_failed job_index err b tr = (Some (NotSelected job_index err), b, tr)"

text \<open>
  The part of step 4 after a click that was reported as done. A new tab is recognised
  by a longer list of window handles; when no handle is new the function falls off its
  end and returns None. Window handles are non-empty strings in the source, so
  \<open>if new_window:\<close> is the test that one was found.
\<close>

definition after_navigation ::
  "step4_env \<Rightarrow> nat \<Rightarrow> nat list \<Rightarrow> string \<Rightarrow> int \<Rightarrow> event list
     \<Rightarrow> step4_result option \<times> browser \<times> event list" where
  "after_navigation env orig_window orig_windows url0 job_index tr =
     (let b1 = after_click env; new_windows = window_handles b1 in
      if length new_windows > length orig_windows then
        (case find (\<lambda>w. w \<notin> set orig_windows) new_windows of
           None \<Rightarrow> (None, b1, tr)
         | Some new_window \<Rightarrow>
             (case switch_to_window new_window b1 of
                Raise x \<Rightarrow> step4_failed job_index (Unexpected x) b1 tr
              | Ok b2 \<Rightarrow>
                  (case current_url b2 of
                     Raise x \<Rightarrow> step4_failed job_index (Unexpected x) b2 tr
                   | Ok new_url \<Rightarrow>
                       if str_contains new_url job_detail
                       then (Some (Selected job_index new_url),
                             b2\<lparr>original_window := Some orig_window\<rparr>, tr)
                       else
                         (case switch_to_window orig_window b2 of
                            Raise x \<Rightarrow> step4_failed job_index (Unexpected x) b2 tr
                          | Ok b3 \<Rightarrow> step4_failed job_index NewTabNotJobDetail b3 tr))))
      else
        (case current_url b1 of
           Raise x \<Rightarrow> step4_failed job_index (Unexpected x) b1 tr
         | Ok new_url \<Rightarrow>
             if new_url \<noteq> url0 \<and> str_contains new_url job_detail
             then (Some (Selected job_index new_url), b1, tr)
             else if new_url \<noteq> url0 then (Some (Selected job_index new_url), b1, tr)
             else step4_failed job_index UrlUnchanged b1 tr))"

text \<open>
  \<open>step_4_apply_to_job_index(driver, job_index)\<close>. Every exception inside is caught by
  the outer handler, which returns the failure dictionary. The result is the returned
  value, the browser afterwards and the click attempts made.
\<close>

definition step_4_apply_to_job_index ::
  "step4_env \<Rightarrow> browser \<Rightarrow> int \<Rightarrow> step4_result option \<times> browser \<times> event list" where
  "step_4_apply_to_job_index env b job_index =
     (case current_window_handle b of
        Raise x \<Rightarrow> step4_failed job_index (Unexpected x) b []
      | Ok orig_window \<Rightarrow>
          (case current_url b of
             Raise x \<Rightarrow> step4_failed job_index (Unexpected x) b []
           | Ok url0 \<Rightarrow>
               (let job_elements = find_all_job_elements (listing_page env) in
                if job_elements = [] then step4_failed job_index NoJobElements b []
                else if job_index \<ge> int (length job_elements)
                then step4_failed job_index
                       (IndexUnavailable job_index (length job_elements)) b []
                else
                  (case py_index job_elements job_index of
                     Raise x \<Rightarrow> step4_failed job_index (Unexpected x) b []
                   | Ok target \<Rightarrow>
                       if already_applied env
                       then step4_failed job_index (AlreadyApplied job_index) b []
                       else
                         (let clicked = click_job_element (job_click env) in
                          if \<not> fst clicked
                          then step4_failed job_index ClickFailed b (snd clicked)
                          else after_navigation env orig_window (window_handles b) url0
                                 job_index (snd clicked))))))"

definition one_window :: browser where
  "one_window =
     \<lparr>windows = [(1, ''https://www.dice.com/jobs?q=dev'')], current = 1,
      original_window = None\<rparr>"

definition quiet_step4_env :: "page \<Rightarrow> step4_env" where
  "quiet_step4_env pg =
     \<lparr>listing_page = pg, already_applied = False,
      job_click = \<lparr>scroll_into_view = Ok (), click_strategy = (\<lambda>i. Ok ()),
                   url_differs = (\<lambda>i. Ok True)\<rparr>,
      after_click = one_window\<rparr>"

section \<open>Returning to the results page (dice\_step\_5\_loop\_return.py)\<close>

text \<open>
  \<open>for other_window in current_windows: if other_window != window: switch to it and
  close it\<close>.
\<close>

fun close_others :: "nat \<Rightarrow> nat list \<Rightarrow> browser \<Rightarrow> outcome" where
  "close_others w [] b = Done b"
| "close_others w (other # rest) b =
     (if other \<noteq> w
      then and_then (attempt (switch_to_window other b) b)
             (\<lambda>b1. and_then (attempt (close_window b1) b1) (close_others w rest))
      else close_others w rest b)"

text \<open>
  No original window stored: each window is visited until one shows an address that
  contains the results address; the others are then closed and the loop is left.
\<close>

fun find_results_window :: "string \<Rightarrow> nat list \<Rightarrow> nat list \<Rightarrow> browser \<Rightarrow> outcome" where
  "find_results_window url all_windows [] b = Done b"
| "find_results_window url all_windows (w # rest) b =
     and_then (attempt (switch_to_window w b) b)
       (\<lambda>b1. case current_url b1 of
                Raise x \<Rightarrow> Failed x b1
              | Ok u \<Rightarrow>
                  if str_contains u url
                  then and_then (close_others w all_windows b1)
                         (\<lambda>b2. attempt (switch_to_window w b2) b2)
                  else find_results_window url all_windows rest b1)"

definition handle_tabs :: "string \<Rightarrow> browser \<Rightarrow> outcome" where
  "handle_tabs url b =
     (let current_windows = window_handles b in
      if length current_windows > 1 then
        (case original_window b of
           Some stored \<Rightarrow>
             (case current_window_handle b of
                Raise x \<Rightarrow> Failed x b
              | Ok current_window \<Rightarrow>
                  if current_window \<noteq> stored
                  then and_then (attempt (close_window b) b)
                         (\<lambda>b1. attempt (switch_to_window stored b1) b1)
                  else attempt (switch_to_window stored b) b)
         | None \<Rightarrow> find_results_window url current_windows current_windows b)
      else Done b)"

text \<open>
  What step 5 is given: whether each of the six job indicators of
  \<open>_verify_on_results_page\<close> finds an element (or raises), the answer of
  \<open>_verify_ready_for_next_job\<close>, and what each of its three \<open>driver.get\<close> calls does
  (line 81, the retry of line 115, the recovery of line 135). Both helpers and
  \<open>_handle_popups\<close> catch every exception; closing a popup is modelled as leaving
  windows and addresses as they are.
\<close>

record step5_env =
  results_indicator :: "nat \<Rightarrow> bool res"
  ready_for_next_job :: bool
  navigate_get :: "string \<Rightarrow> page_load"
  retry_get :: "string \<Rightarrow> page_load"
  recovery_get :: "string \<Rightarrow> page_load"

definition navigate_to_results :: "step5_env \<Rightarrow> string \<Rightarrow> browser \<Rightarrow> outcome" where
  "navigate_to_results env url b =
     (case current_url b of
        Raise x \<Rightarrow> Failed x b
      | Ok u \<Rightarrow> if u = url then Done b else driver_get (navigate_get env) url b)"

definition verify_on_results_page :: "step5_env \<Rightarrow> browser \<Rightarrow> bool" where
  "verify_on_results_page env b =
     (case current_url b of
        Raise x \<Rightarrow> False
      | Ok u \<Rightarrow>
          if (str_contains u ''/jobs'' \<or> str_contains u ''search'' \<or> str_contains u ''q='')
             \<and> \<not> str_contains u job_detail
          then
            (if list_ex (\<lambda>i. results_indicator env i = Ok True) [0, 1, 2, 3, 4, 5] then True
             else if str_contains u ''filters.easyApply=true'' then True
             else False)
          else False)"

datatype step5_error = ReturnNotVerified | UnexpectedError exn

record step5_result =
  ready_for_next :: bool
  result_url :: string
  step5_error :: "step5_error option"

datatype step5_outcome = Returned step5_result browser | Escaped exn browser

text \<open>The body of the try block of \<open>step_5_loop_return\<close>.\<close>

definition step_5_body :: "step5_env \<Rightarrow> string \<Rightarrow> browser \<Rightarrow> step5_outcome" where
  "step_5_body env url b =
     (case current_url b of
        Raise x \<Rightarrow> Escaped x b
      | Ok u0 \<Rightarrow>
          (case and_then (handle_tabs url b) (navigate_to_results env url) of
             Failed x b1 \<Rightarrow> Escaped x b1
           | Done b1 \<Rightarrow>
               if verify_on_results_page env b1 then
                 (case current_url b1 of
                    Raise x \<Rightarrow> Escaped x b1
                  | Ok u \<Rightarrow>
                      if ready_for_next_job env
                      then Returned \<lparr>ready_for_next = True, result_url = u, step5_error = None\<rparr> b1
                      else Returned \<lparr>ready_for_next = True, result_url = u, step5_error = None\<rparr> b1)
               else
                 (case driver_get (retry_get env) url b1 of
                    Failed x b2 \<Rightarrow> Escaped x b2
                  | Done b2 \<Rightarrow>
                      (case current_url b2 of
                         Raise x \<Rightarrow> Escaped x b2
                       | Ok u \<Rightarrow>
                           Returned \<lparr>ready_for_next = True, result_url = u,
                                     step5_error = Some ReturnNotVerified\<rparr> b2))))"

text \<open>
  \<open>step_5_loop_return(driver, filtered_results_url)\<close>. The handler of the try block
  navigates once more; when that fails too it returns \<open>ready_for_next = False\<close> with
  \<open>driver.current_url if hasattr(driver, 'current_url') else 'unknown'\<close>, and
  \<open>hasattr\<close> lets every exception but AttributeError through, so a browser that
  cannot give its address makes step 5 raise.
\<close>

definition step_5_give_up :: "exn \<Rightarrow> browser \<Rightarrow> step5_result res \<times> browser" where
  "step_5_give_up x b =
     (case current_url b of
        Raise z \<Rightarrow> (Raise z, b)
      | Ok u \<Rightarrow>
          (Ok \<lparr>ready_for_next = False, result_url = u,
               step5_error = Some (UnexpectedError x)\<rparr>, b))"

definition step_5_loop_return ::
  "step5_env \<Rightarrow> string \<Rightarrow> browser \<Rightarrow> step5_result res \<times> browser" where
  "step_5_loop_return env url b =
     (case step_5_body env url b of
        Returned r b1 \<Rightarrow> (Ok r, b1)
      | Escaped x b1 \<Rightarrow>
          (case driver_get (recovery_get env) url b1 of
             Failed y b2 \<Rightarrow> step_5_give_up x b2
           | Done b2 \<Rightarrow>
               (case current_url b2 of
                  Raise y \<Rightarrow> step_5_give_up x b2
                | Ok u \<Rightarrow>
                    (Ok \<lparr>ready_for_next = True, result_url = u,
                         step5_error = Some (UnexpectedError x)\<rparr>, b2))))"

section \<open>Cataloging step and the application loop (dice-assistant.py)\<close>

text \<open>
  \<open>step_3_catalog_jobs(driver)\<close>: the address is read, the script waits for a listing
  link (a TimeoutException gives an empty catalog), then counts the job elements. Any
  other exception is caught by the handler, which reads the address again.
\<close>

record catalog_result =
  total_jobs :: nat
  page_url :: string
  filters_confirmed :: bool

record step3_env =
  wait_for_listing :: "unit res"
  results_page :: page

definition step_3_catalog_jobs :: "step3_env \<Rightarrow> browser \<Rightarrow> catalog_result res" where
  "step_3_catalog_jobs env b =
     (let handler =
            (case current_url b of
               Raise x \<Rightarrow> Raise x
             | Ok u \<Rightarrow> Ok \<lparr>total_jobs = 0, page_url = u, filters_confirmed = False\<rparr>)
      in case current_url b of
           Raise x \<Rightarrow> handler
         | Ok u \<Rightarrow>
             (let filters = (str_contains u ''filters.easyApply=true''
                            \<and> str_contains u ''filters.postedDate=ONE'')
              in case wait_for_listing env of
                   Raise x \<Rightarrow>
                     if x = TimeoutException
                     then Ok \<lparr>total_jobs = 0, page_url = u, filters_confirmed = filters\<rparr>
                     else handler
                 | Ok w \<Rightarrow>
                     (let job_elements = find_all_job_elements (results_page env) in
                      if job_elements = []
                      then Ok \<lparr>total_jobs = 0, page_url = u, filters_confirmed = filters\<rparr>
                      else Ok \<lparr>total_jobs = length job_elements, page_url = u,
                               filters_confirmed = filters\<rparr>)))"

text \<open>
  What the loop is given for catalog entry i: the results of steps 4, 8, 9 and 10 (each
  may raise), and the browser as these steps leave it. Step 10 returns a dictionary
  whose \<open>submission_confirmed\<close> the loop reads.
\<close>

record apply_env =
  select_job :: "step4_result option res"
  click_apply :: "bool res"
  click_next :: "bool res"
  submit :: "bool option res"
  left_browser :: browser

definition step4_success :: "step4_result option \<Rightarrow> bool" where
  "step4_success r = (case r of Some (Selected i u) \<Rightarrow> True | Some (NotSelected i e) \<Rightarrow> False | None \<Rightarrow> False)"

text \<open>
  The apply sequence of one entry, lines 259 to 295 of \<open>_apply_to_jobs\<close>: \<open>Ok True\<close> when
  the application is counted, \<open>Ok False\<close> when a step reported failure, \<open>Raise\<close> when a
  step raised.
\<close>

definition apply_phase :: "apply_env \<Rightarrow> bool res" where
  "apply_phase a =
     (case select_job a of
        Raise x \<Rightarrow> Raise x
      | Ok r \<Rightarrow>
          if step4_success r then
            (case click_apply a of
               Raise x \<Rightarrow> Raise x
             | Ok applied \<Rightarrow>
                 if applied then
                   (case click_next a of
                      Raise x \<Rightarrow> Raise x
                    | Ok advanced \<Rightarrow>
                        if advanced then
                          (case submit a of
                             Raise x \<Rightarrow> Raise x
                           | Ok None \<Rightarrow> Ok False
                           | Ok (Some confirmed) \<Rightarrow> Ok confirmed)
                        else Ok False)
                 else Ok False)
          else Ok False)"

text \<open>
  What \<open>_apply_to_jobs\<close> is given: the cataloging step, and for catalog entry i the apply
  steps, step 5, and what the loop's own two \<open>driver.get\<close> calls do (line 306 after a
  step 5 that is not ready, line 316 in the handler).
\<close>

record jobs_env =
  catalog :: step3_env
  apply_at :: "nat \<Rightarrow> apply_env"
  return_at :: "nat \<Rightarrow> step5_env"
  manual_get :: "nat \<Rightarrow> string \<Rightarrow> page_load"
  handler_get :: "nat \<Rightarrow> string \<Rightarrow> page_load"

text \<open>Decimal digits of a natural number, for the f-strings of the source.\<close>

fun str_nat :: "nat \<Rightarrow> string" where
  "str_nat n =
     (if n < 10 then [''0123456789'' ! n]
      else str_nat (n div 10) @ [''0123456789'' ! (n mod 10)])"

declare str_nat.simps [simp del]

record applied_job =
  entry_title :: string
  entry_company :: string
  entry_search :: string
  entry_location :: "string option"
  entry_index :: nat

record loop_state =
  applications_completed :: nat
  applied :: "applied_job list"
  driver :: browser
  trace :: "event list"

text \<open>
  Step 5 as the loop uses it (lines 297 to 309): when step 5 does not report
  \<open>ready_for_next\<close> the loop navigates itself.
\<close>

definition return_to_results ::
  "step5_env \<Rightarrow> (string \<Rightarrow> page_load) \<Rightarrow> string \<Rightarrow> browser \<Rightarrow> outcome" where
  "return_to_results env load url b =
     (case step_5_loop_return env url b of
        (Raise x, b1) \<Rightarrow> Failed x b1
      | (Ok r, b1) \<Rightarrow> if ready_for_next r then Done b1 else driver_get load url b1)"

text \<open>The handler of the inner try block (lines 311 to 320): navigate, ignoring failure.\<close>

definition recover :: "(string \<Rightarrow> page_load) \<Rightarrow> string \<Rightarrow> browser \<Rightarrow> browser" where
  "recover load url b = (case driver_get load url b of Done b1 \<Rightarrow> b1 | Failed x b1 \<Rightarrow> b1)"

text \<open>
  One iteration of \<open>for job_index in range(total_jobs)\<close>. \<open>search\<close> and \<open>place\<close> are
  \<open>self.current_job_title\<close> and \<open>self.current_location\<close>.
\<close>

definition process_job ::
  "jobs_env \<Rightarrow> string \<Rightarrow> string option \<Rightarrow> string \<Rightarrow> nat \<Rightarrow> loop_state \<Rightarrow> nat \<Rightarrow> loop_state" where
  "process_job env search place url n_jobs st i =
     (let a = apply_at env i;
          st1 = st\<lparr>trace := trace st @ [ProcessingJob i]\<rparr>
      in case apply_phase a of
           Raise x \<Rightarrow>
             st1\<lparr>driver := (if i + 1 < n_jobs
                             then recover (handler_get env i) url (left_browser a)
                             else left_browser a)\<rparr>
         | Ok counted \<Rightarrow>
             (let st2 =
                    (if counted
                     then st1\<lparr>applications_completed := applications_completed st1 + 1,
                              applied := applied st1 @
                                [\<lparr>entry_title = ''Job #'' @ str_nat (i + 1),
                                  entry_company = ''Applied via Dice'',
                                  entry_search = search, entry_location = place,
                                  entry_index = i\<rparr>]\<rparr>
                     else st1)
              in if i + 1 < n_jobs then
                   (case return_to_results (return_at env i) (manual_get env i) url
                           (left_browser a) of
                      Done b \<Rightarrow> st2\<lparr>driver := b\<rparr>
                    | Failed x b \<Rightarrow> st2\<lparr>driver := recover (handler_get env i) url b\<rparr>)
                 else st2\<lparr>driver := left_browser a\<rparr>))"

record apply_summary =
  loop_success :: bool
  applications :: nat
  loop_applied_jobs :: "applied_job list"

text \<open>
  \<open>_apply_to_jobs(driver, tier_used)\<close>. The address is read outside the try block, so
  an exception there leaves the function; an exception of the cataloging step is caught
  by the outer handler and the summary after it is returned.
\<close>

definition apply_to_jobs ::
  "jobs_env \<Rightarrow> string \<Rightarrow> string option \<Rightarrow> browser \<Rightarrow> (apply_summary \<times> loop_state) res" where
  "apply_to_jobs env search place b =
     (let st0 = \<lparr>applications_completed = 0, applied = [], driver = b, trace = []\<rparr> in
      case current_url b of
        Raise x \<Rightarrow> Raise x
      | Ok filtered_results_url \<Rightarrow>
          (case step_3_catalog_jobs (catalog env) b of
             Raise x \<Rightarrow>
               Ok (\<lparr>loop_success = (0::nat) > 0, applications = 0, loop_applied_jobs = []\<rparr>, st0)
           | Ok job_catalog \<Rightarrow>
               if total_jobs job_catalog = 0
               then Ok (\<lparr>loop_success = False, applications = 0, loop_applied_jobs = []\<rparr>, st0)
               else
                 (let st = foldl (process_job env search place filtered_results_url
                                    (total_jobs job_catalog))
                             st0 [0..<total_jobs job_catalog]
                  in Ok (\<lparr>loop_success = applications_completed st > 0,
                           applications = applications_completed st,
                           loop_applied_jobs = applied st\<rparr>, st))))"

section \<open>Navigation tiers and the run (dice-assistant.py)\<close>

text \<open>
  What the three tiers are given: whether each \<open>driver.get\<close> raises, the answer of
  \<open>_validate_job_page_success\<close> after Tier 1 and of \<open>_manual_search\<close> in Tier 2 (both
  catch every exception and return a boolean), and the browser as the tiers leave it.
\<close>

record nav_env =
  tier1_get :: "unit res"
  tier1_valid :: bool
  tier2_get :: "unit res"
  tier2_search :: bool
  tier3_get :: "unit res"
  landing :: browser

definition tier1_optimization :: "nav_env \<Rightarrow> bool \<times> event list" where
  "tier1_optimization nav =
     log_first (TierAttempt 1)
       (case tier1_get nav of Raise x \<Rightarrow> (False, []) | Ok u \<Rightarrow> (tier1_valid nav, []))"

definition tier2_fallback :: "nav_env \<Rightarrow> bool \<times> event list" where
  "tier2_fallback nav =
     log_first (TierAttempt 2)
       (case tier2_get nav of Raise x \<Rightarrow> (False, []) | Ok u \<Rightarrow> (tier2_search nav, []))"

text \<open>Tier 3 navigates and returns False on both of its paths.\<close>

definition tier3_full_fallback :: "nav_env \<Rightarrow> bool \<times> event list" where
  "tier3_full_fallback nav =
     log_first (TierAttempt 3)
       (case tier3_get nav of Raise x \<Rightarrow> (False, []) | Ok u \<Rightarrow> (False, []))"

text \<open>
  The if/elif chain of \<open>run_automation\<close>: the tier recorded as \<open>tier_used\<close>, or None
  when the chain reaches its else branch, and the tiers attempted.
\<close>

definition reach_job_page :: "nav_env \<Rightarrow> string option \<times> event list" where
  "reach_job_page nav =
     (let t1 = tier1_optimization nav in
      if fst t1 then (Some ''Tier 1'', snd t1)
      else
        (let t2 = tier2_fallback nav in
         if fst t2 then (Some ''Tier 2'', snd t1 @ snd t2)
         else
           (let t3 = tier3_full_fallback nav in
            if fst t3 then (Some ''Tier 3'', snd t1 @ snd t2 @ snd t3)
            else (None, snd t1 @ snd t2 @ snd t3))))"

text \<open>
  Python's \<open>str.strip()\<close>. A character is a code point below 256; among these
  \<open>str.isspace()\<close> holds for the space, the controls 0x09 to 0x0D and 0x1C to 0x1F, the
  next-line control 0x85 and the no-break space 0xA0.
\<close>

definition is_space :: "char \<Rightarrow> bool" where
  "is_space c =
     (c \<in> set [CHR '' '', CHR 0x09, CHR 0x0A, CHR 0x0B, CHR 0x0C, CHR 0x0D,
               CHR 0x1C, CHR 0x1D, CHR 0x1E, CHR 0x1F, CHR 0x85, CHR 0xA0])"

definition strip :: "string \<Rightarrow> string" where
  "strip s = rev (dropWhile is_space (rev (dropWhile is_space s)))"

text \<open>
  \<open>user_data\<close> is None when the caller passes nothing, an empty dictionary or no
  dictionary; otherwise the fields are \<open>user_data.get('jobTitle', '')\<close> and
  \<open>user_data.get('location', '')\<close>.
\<close>

record user_data =
  jobTitle :: string
  user_location :: string

datatype login_result = LoggedIn | LoginRefused "string option"

datatype run_error =
    NoJobTitle
  | NoUserData
  | NoUserEmail
  | LoginFailed string
  | LoginNoResult
  | FailedToReachJobPage
  | RunException exn

text \<open>The dictionary \<open>run_automation\<close> returns; a key that is absent is None.\<close>

record run_result =
  success :: bool
  error :: "run_error option"
  job_title_searched :: "string option"
  location_searched :: "string option"
  tier_used :: "string option"
  total_applications :: "nat option"
  applied_jobs :: "applied_job list option"
  message :: "string option"

definition run_failure :: "run_error \<Rightarrow> run_result" where
  "run_failure e =
     \<lparr>success = False, error = Some e, job_title_searched = None, location_searched = None,
      tier_used = None, total_applications = None, applied_jobs = None, message = None\<rparr>"

record run_env =
  create_driver :: "unit res"
  login :: "login_result option res"
  navigation :: nav_env
  jobs :: jobs_env

text \<open>
  \<open>run_automation(user_data, resume_data)\<close> with \<open>self.user_email\<close>. The result is the
  returned dictionary and the trace of tiers attempted and entries processed.
\<close>

definition run_automation ::
  "run_env \<Rightarrow> user_data option \<Rightarrow> string option \<Rightarrow> run_result \<times> event list" where
  "run_automation env data user_email =
     (case data of
        None \<Rightarrow> (run_failure NoUserData, [])
      | Some ud \<Rightarrow>
          (let title = strip (jobTitle ud) in
           if title = [] then (run_failure NoJobTitle, [])
           else
             (let loc = strip (user_location ud);
                  place = (if loc \<noteq> [] then Some loc else None)
              in case create_driver env of
                   Raise x \<Rightarrow> (run_failure (RunException x), [])
                 | Ok d \<Rightarrow>
                     if user_email = None \<or> user_email = Some [] then (run_failure NoUserEmail, [])
                     else
                       (case login env of
                          Raise x \<Rightarrow> (run_failure (RunException x), [])
                        | Ok None \<Rightarrow> (run_failure LoginNoResult, [])
                        | Ok (Some (LoginRefused why)) \<Rightarrow>
                            (run_failure
                               (LoginFailed (case why of None \<Rightarrow> ''Login failed'' | Some e \<Rightarrow> e)), [])
                        | Ok (Some LoggedIn) \<Rightarrow>
                            (case reach_job_page (navigation env) of
                               (None, tiers) \<Rightarrow> (run_failure FailedToReachJobPage, tiers)
                             | (Some tier, tiers) \<Rightarrow>
                                 (case apply_to_jobs (jobs env) title place
                                         (landing (navigation env)) of
                                    Raise x \<Rightarrow> (run_failure (RunException x), tiers)
                                  | Ok (results, st) \<Rightarrow>
                                      (\<lparr>success = True, error = None,
                                        job_title_searched = Some title,
                                        location_searched = place,
                                        tier_used = Some tier,
                                        total_applications = Some (applications results),
                                        applied_jobs = Some (loop_applied_jobs results),
                                        message = Some (''Completed '' @ str_nat (applications results)
                                          @ '' applications for '' @ title
                                          @ (case place of None \<Rightarrow> [] | Some l \<Rightarrow> '' in '' @ l))\<rparr>,
                                       tiers @ trace st)))))))"

section \<open>Predicates used in the statements\<close>

text \<open>
  A browser is well formed when the focused window is open, window handles are
  distinct, and the stored original window, when there is one, is open.
\<close>

definition well_formed :: "browser \<Rightarrow> bool" where
  "well_formed b =
     (current b \<in> set (window_handles b) \<and> distinct (window_handles b)
      \<and> (case original_window b of None \<Rightarrow> True | Some h \<Rightarrow> h \<in> set (window_handles b)))"

text \<open>
  Every \<open>driver.get(filtered_results_url)\<close> of the iteration for entry i, in step 5 and
  in the loop, loads that address.
\<close>

definition navigation_succeeds :: "jobs_env \<Rightarrow> nat \<Rightarrow> string \<Rightarrow> bool" where
  "navigation_succeeds env i url =
     (navigate_get (return_at env i) url = Loaded url
      \<and> retry_get (return_at env i) url = Loaded url
      \<and> recovery_get (return_at env i) url = Loaded url
      \<and> manual_get env i url = Loaded url
      \<and> handler_get env i url = Loaded url)"

text \<open>The application to entry i is counted.\<close>

definition counted :: "jobs_env \<Rightarrow> nat \<Rightarrow> bool" where
  "counted env i = (apply_phase (apply_at env i) = Ok True)"

text \<open>The run gets as far as the navigation tiers: input accepted, driver created, logged in.\<close>

definition started :: "run_env \<Rightarrow> user_data option \<Rightarrow> string option \<Rightarrow> bool" where
  "started env data user_email =
     (case data of
        None \<Rightarrow> False
      | Some ud \<Rightarrow>
          strip (jobTitle ud) \<noteq> [] \<and> create_driver env = Ok ()
          \<and> user_email \<noteq> None \<and> user_email \<noteq> Some []
          \<and> login env = Ok (Some LoggedIn))"

section \<open>Concrete runs\<close>

text \<open>Browsers, pages and environments used as witnesses and at the failing inputs.\<close>

definition results_url :: string where
  "results_url = ''https://www.dice.com/jobs?filters.easyApply=true&filters.postedDate=ONE&q=dev''"

definition results_browser :: browser where
  "results_browser = \<lparr>windows = [(1, results_url)], current = 1, original_window = None\<rparr>"

definition detail_browser :: browser where
  "detail_browser =
     \<lparr>windows = [(1, ''https://www.dice.com/job-detail/1'')], current = 1,
      original_window = None\<rparr>"

definition two_tab_browser :: browser where
  "two_tab_browser =
     \<lparr>windows = [(1, results_url), (2, ''https://www.dice.com/job-detail/7'')], current = 2,
      original_window = Some 1\<rparr>"

definition three_listing_page :: page where
  "three_listing_page =
     \<lparr>dom = [\<lparr>href = Some ''/job-detail/a'', is_displayed = Ok True, attr_error = None,
              location = Ok (0, 10), marks = [0]\<rparr>,
             \<lparr>href = Some ''/job-detail/b'', is_displayed = Ok True, attr_error = None,
              location = Ok (0, 20), marks = [0]\<rparr>,
             \<lparr>href = Some ''/job-detail/c'', is_displayed = Ok True, attr_error = None,
              location = Ok (0, 30), marks = [0]\<rparr>],
      selector_error = (\<lambda>i. None)\<rparr>"

definition applied_ok :: "browser \<Rightarrow> apply_env" where
  "applied_ok b =
     \<lparr>select_job = Ok (Some (Selected 0 ''https://www.dice.com/job-detail/1'')),
      click_apply = Ok True, click_next = Ok True, submit = Ok (Some True),
      left_browser = b\<rparr>"

definition apply_click_fails :: "browser \<Rightarrow> apply_env" where
  "apply_click_fails b =
     \<lparr>select_job = Ok (Some (Selected 1 ''https://www.dice.com/job-detail/7'')),
      click_apply = Ok False, click_next = Ok True, submit = Ok (Some True),
      left_browser = b\<rparr>"

definition quiet_step5 :: step5_env where
  "quiet_step5 =
     \<lparr>results_indicator = (\<lambda>i. Ok True), ready_for_next_job = True,
      navigate_get = Loaded, retry_get = Loaded, recovery_get = Loaded\<rparr>"

text \<open>A step 5 for a browser whose every navigation raises and leaves the page.\<close>

definition stuck_step5 :: step5_env where
  "stuck_step5 =
     \<lparr>results_indicator = (\<lambda>i. Ok True), ready_for_next_job = True,
      navigate_get = (\<lambda>u. LoadFailed WebDriverException None),
      retry_get = (\<lambda>u. LoadFailed WebDriverException None),
      recovery_get = (\<lambda>u. LoadFailed WebDriverException None)\<rparr>"

text \<open>A step 5 for a browser that answers every navigation with its login page.\<close>

definition redirected_step5 :: step5_env where
  "redirected_step5 =
     \<lparr>results_indicator = (\<lambda>i. Ok False), ready_for_next_job = True,
      navigate_get = (\<lambda>u. Loaded ''https://www.dice.com/login''),
      retry_get = (\<lambda>u. Loaded ''https://www.dice.com/login''),
      recovery_get = (\<lambda>u. Loaded ''https://www.dice.com/login'')\<rparr>"

definition three_jobs :: jobs_env where
  "three_jobs =
     \<lparr>catalog = \<lparr>wait_for_listing = Ok (), results_page = three_listing_page\<rparr>,
      apply_at = (\<lambda>i. if i = 1 then apply_click_fails two_tab_browser
                       else applied_ok detail_browser),
      return_at = (\<lambda>i. quiet_step5),
      manual_get = (\<lambda>i. Loaded), handler_get = (\<lambda>i. Loaded)\<rparr>"

definition one_job :: jobs_env where
  "one_job =
     \<lparr>catalog = \<lparr>wait_for_listing = Ok (), results_page = two_listing_page\<rparr>,
      apply_at = (\<lambda>i. applied_ok detail_browser),
      return_at = (\<lambda>i. quiet_step5),
      manual_get = (\<lambda>i. Loaded), handler_get = (\<lambda>i. Loaded)\<rparr>"

definition stuck_jobs :: jobs_env where
  "stuck_jobs =
     \<lparr>catalog = \<lparr>wait_for_listing = Ok (), results_page = three_listing_page\<rparr>,
      apply_at = (\<lambda>i. applied_ok detail_browser),
      return_at = (\<lambda>i. stuck_step5),
      manual_get = (\<lambda>i u. LoadFailed WebDriverException None),
      handler_get = (\<lambda>i u. LoadFailed WebDriverException None)\<rparr>"

definition redirected_jobs :: jobs_env where
  "redirected_jobs =
     \<lparr>catalog = \<lparr>wait_for_listing = Ok (), results_page = three_listing_page\<rparr>,
      apply_at = (\<lambda>i. applied_ok detail_browser),
      return_at = (\<lambda>i. redirected_step5),
      manual_get = (\<lambda>i u. Loaded ''https://www.dice.com/login''),
      handler_get = (\<lambda>i u. Loaded ''https://www.dice.com/login'')\<rparr>"

definition no_jobs :: jobs_env where
  "no_jobs =
     \<lparr>catalog = \<lparr>wait_for_listing = Raise TimeoutException, results_page = hidden_listing_page\<rparr>,
      apply_at = (\<lambda>i. applied_ok detail_browser),
      return_at = (\<lambda>i. quiet_step5),
      manual_get = (\<lambda>i. Loaded), handler_get = (\<lambda>i. Loaded)\<rparr>"

definition tier1_reaches :: nav_env where
  "tier1_reaches =
     \<lparr>tier1_get = Ok (), tier1_valid = True, tier2_get = Ok (), tier2_search = True,
      tier3_get = Ok (), landing = results_browser\<rparr>"

definition tier2_reaches :: nav_env where
  "tier2_reaches =
     \<lparr>tier1_get = Ok (), tier1_valid = False, tier2_get = Ok (), tier2_search = True,
      tier3_get = Ok (), landing = results_browser\<rparr>"

definition no_tier_reaches :: nav_env where
  "no_tier_reaches =
     \<lparr>tier1_get = Raise WebDriverException, tier1_valid = True, tier2_get = Ok (),
      tier2_search = False, tier3_get = Ok (), landing = results_browser\<rparr>"

definition run_with :: "nav_env \<Rightarrow> jobs_env \<Rightarrow> run_env" where
  "run_with nav js =
     \<lparr>create_driver = Ok (), login = Ok (Some LoggedIn), navigation = nav, jobs = js\<rparr>"

definition dev_search :: "user_data option" where
  "dev_search = Some \<lparr>jobTitle = ''dev'', user_location = ''''\<rparr>"

definition loop_start :: loop_state where
  "loop_start = \<lparr>applications_completed = 0, applied = [], driver = results_browser, trace = []\<rparr>"

definition user_email_given :: "string option" where
  "user_email_given = Some ''user@example.com''"

section \<open>Submission records (application-assistant.py, job-board-assistant.py)\<close>

text \<open>
  \<open>string.ascii_uppercase + string.digits\<close>, and \<open>random.choices(population, k)\<close>: the
  random source is a sequence of draws, each reduced to an index of the population.
\<close>

definition ref_alphabet :: string where
  "ref_alphabet = ''ABCDEFGHIJKLMNOPQRSTUVWXYZ0123456789''"

definition random_choices :: "(nat \<Rightarrow> nat) \<Rightarrow> nat \<Rightarrow> nat \<Rightarrow> string" where
  "random_choices rnd first k =
     map (\<lambda>i. ref_alphabet ! (rnd i mod length ref_alphabet)) [first..<first + k]"

text \<open>\<open>generate_simple_ref()\<close>, with \<open>datetime.now().year\<close> as a parameter.\<close>

definition generate_simple_ref :: "nat \<Rightarrow> (nat \<Rightarrow> nat) \<Rightarrow> string" where
  "generate_simple_ref year rnd = ''APP-'' @ str_nat year @ ''-'' @ random_choices rnd 0 6"

text \<open>
  The store: whether a connection can be opened, the users table (email, id), the table
  \<open>application_stats\<close>, and an error the INSERT statement raises, if any.
\<close>

record application_row =
  row_user_id :: nat
  app_ref :: string
  platform :: string
  row_job_title :: string
  row_company :: string
  row_status :: string

record database =
  connects :: bool
  users :: "(string \<times> nat) list"
  application_stats :: "application_row list"
  insert_error :: "exn option"

datatype log_error = UserNotFound | LogException exn

datatype log_result = Logged nat string | NotLogged log_error

text \<open>\<open>value[:255] if value else 'Not Specified'\<close>.\<close>

definition or_not_specified :: "string \<Rightarrow> string" where
  "or_not_specified s = (if s \<noteq> [] then take 255 s else ''Not Specified'')"

text \<open>
  \<open>ApplicationTracker.log_application\<close>. \<open>conn\<close> is assigned inside the try block, so
  when the connection cannot be opened the handler's \<open>if conn:\<close> raises
  UnboundLocalError. \<open>Logged\<close> is \<open>{'success': True, 'id', 'reference'}\<close>, \<open>NotLogged\<close> is
  \<open>{'success': False, 'error'}\<close>.
\<close>

definition log_application ::
  "database \<Rightarrow> nat \<Rightarrow> (nat \<Rightarrow> nat) \<Rightarrow> string \<Rightarrow> string \<Rightarrow> string \<Rightarrow> string \<Rightarrow> string
     \<Rightarrow> (log_result \<times> database) res" where
  "log_application db year rnd user_email pf title company status =
     (if \<not> connects db then Raise UnboundLocalError
      else
        (case map_of (users db) user_email of
           None \<Rightarrow> Ok (NotLogged UserNotFound, db)
         | Some uid \<Rightarrow>
             (let new_ref = generate_simple_ref year rnd in
              case insert_error db of
                Some x \<Rightarrow> Ok (NotLogged (LogException x), db)
              | None \<Rightarrow>
                  Ok (Logged (length (application_stats db) + 1) new_ref,
                      db\<lparr>application_stats := application_stats db @
                           [\<lparr>row_user_id = uid, app_ref = new_ref, platform = pf,
                             row_job_title = or_not_specified title,
                             row_company = or_not_specified company,
                             row_status = status\<rparr>]\<rparr>))))"

text \<open>
  \<open>str.lower()\<close> and \<open>str.replace(' ', '-')\<close>. Among the code points below 256 the
  upper-case letters are A to Z and 0xC0 to 0xDE without the multiplication sign 0xD7;
  each has its lower-case letter 32 places further.
\<close>

definition lower_char :: "char \<Rightarrow> char" where
  "lower_char c =
     (case List.find (\<lambda>p. fst p = c)
             (zip (''ABCDEFGHIJKLMNOPQRSTUVWXYZ'' @
                  [CHR 0xC0, CHR 0xC1, CHR 0xC2, CHR 0xC3, CHR 0xC4, CHR 0xC5, CHR 0xC6, CHR 0xC7,
                   CHR 0xC8, CHR 0xC9, CHR 0xCA, CHR 0xCB, CHR 0xCC, CHR 0xCD, CHR 0xCE, CHR 0xCF,
                   CHR 0xD0, CHR 0xD1, CHR 0xD2, CHR 0xD3, CHR 0xD4, CHR 0xD5, CHR 0xD6, CHR 0xD8,
                   CHR 0xD9, CHR 0xDA, CHR 0xDB, CHR 0xDC, CHR 0xDD, CHR 0xDE])
                  (''abcdefghijklmnopqrstuvwxyz'' @
                  [CHR 0xE0, CHR 0xE1, CHR 0xE2, CHR 0xE3, CHR 0xE4, CHR 0xE5, CHR 0xE6, CHR 0xE7,
                   CHR 0xE8, CHR 0xE9, CHR 0xEA, CHR 0xEB, CHR 0xEC, CHR 0xED, CHR 0xEE, CHR 0xEF,
                   CHR 0xF0, CHR 0xF1, CHR 0xF2, CHR 0xF3, CHR 0xF4, CHR 0xF5, CHR 0xF6, CHR 0xF8,
                   CHR 0xF9, CHR 0xFA, CHR 0xFB, CHR 0xFC, CHR 0xFD, CHR 0xFE])) of
        None \<Rightarrow> c
      | Some p \<Rightarrow> snd p)"

definition slug :: "string \<Rightarrow> string" where
  "slug s = map (\<lambda>c. if c = CHR '' '' then CHR ''-'' else c) (map lower_char s)"

text \<open>
  A board dictionary: \<open>board['site_name']\<close> raises KeyError when the key is absent,
  \<open>board.get('agency_name', 'Agency')\<close> has a default.
\<close>

record board =
  site_name :: "string option"
  agency_name :: "string option"

text \<open>The loop of \<open>record_board_submissions\<close>; \<open>first\<close> counts the draws used so far.\<close>

fun insert_boards ::
  "database \<Rightarrow> nat \<Rightarrow> (nat \<Rightarrow> nat) \<Rightarrow> string \<Rightarrow> nat \<Rightarrow> board list \<Rightarrow> database res" where
  "insert_boards db uid rnd industry first [] = Ok db"
| "insert_boards db uid rnd industry first (b # rest) =
     (let new_ref = random_choices rnd first 8 in
      case site_name b of
        None \<Rightarrow> Raise KeyError
      | Some site \<Rightarrow>
          (case insert_error db of
             Some x \<Rightarrow> Raise x
           | None \<Rightarrow>
               insert_boards
                 (db\<lparr>application_stats := application_stats db @
                      [\<lparr>row_user_id = uid, app_ref = new_ref,
                        platform = ''job-board-'' @ slug site,
                        row_job_title = industry @ '' Position'',
                        row_company = (case agency_name b of None \<Rightarrow> ''Agency'' | Some a \<Rightarrow> a),
                        row_status = ''submitted''\<rparr>]\<rparr>)
                 uid rnd industry (first + 8) rest))"

text \<open>
  \<open>JobBoardAssistant.record_board_submissions\<close>; its \<open>get_db_connection\<close> returns None
  when no connection can be opened. A failure inside the loop rolls the inserts back.
\<close>

definition record_board_submissions ::
  "bool \<Rightarrow> database \<Rightarrow> (nat \<Rightarrow> nat) \<Rightarrow> string \<Rightarrow> string \<Rightarrow> board list \<Rightarrow> bool \<times> database" where
  "record_board_submissions db_available db rnd user_email industry boards =
     (if \<not> db_available then (False, db)
      else if \<not> connects db then (False, db)
      else
        (case map_of (users db) user_email of
           None \<Rightarrow> (False, db)
         | Some uid \<Rightarrow>
             (case insert_boards db uid rnd industry 0 boards of
                Raise x \<Rightarrow> (False, db)
              | Ok db' \<Rightarrow> (True, db'))))"

text \<open>The form \<open>APP-<year>-<6 uppercase letters or digits>\<close>.\<close>

definition is_app_ref :: "nat \<Rightarrow> string \<Rightarrow> bool" where
  "is_app_ref year r =
     (let prefix = ''APP-'' @ str_nat year @ ''-'' in
      starts_with r prefix \<and> length r = length prefix + 6
      \<and> list_all (\<lambda>c. c \<in> set ref_alphabet) (drop (length prefix) r))"

definition one_user_db :: database where
  "one_user_db =
     \<lparr>connects = True, users = [(''user@example.com'', 7)], application_stats = [],
      insert_error = None\<rparr>"

definition staffing_board :: board where
  "staffing_board = \<lparr>site_name = Some ''APS Staffing'', agency_name = None\<rparr>"

section \<open>Filling a field (aps\_automation.py)\<close>

text \<open>
  What \<open>_fill_field_by_multiple_strategies\<close> is given for selector i: the outcome of the
  wait for the element, of \<open>is_displayed()\<close> and \<open>is_enabled()\<close>, of scrolling,
  clearing and typing, and of reading the value back.
\<close>

record field_env =
  locate :: "nat \<Rightarrow> unit res"
  field_displayed :: "nat \<Rightarrow> bool res"
  field_enabled :: "nat \<Rightarrow> bool res"
  fill_actions :: "nat \<Rightarrow> unit res"
  entered_value :: "nat \<Rightarrow> string option res"

text \<open>
  The body of the try block for one selector: True when the function returns True
  there, False when the loop continues (every exception is caught).
\<close>

definition fill_attempt :: "field_env \<Rightarrow> nat \<Rightarrow> bool \<times> event list" where
  "fill_attempt env i =
     (case locate env i of
        Raise x \<Rightarrow> (False, [])
      | Ok u \<Rightarrow>
          (case field_displayed env i of
             Raise x \<Rightarrow> (False, [])
           | Ok shown \<Rightarrow>
               if \<not> shown then (False, [])
               else
                 (case field_enabled env i of
                    Raise x \<Rightarrow> (False, [])
                  | Ok enabled \<Rightarrow>
                      if \<not> enabled then (False, [])
                      else
                        log_first (Fill i)
                          (case fill_actions env i of
                             Raise x \<Rightarrow> (False, [])
                           | Ok v \<Rightarrow>
                               (case entered_value env i of
                                  Raise x \<Rightarrow> (False, [])
                                | Ok None \<Rightarrow> (False, [])
                                | Ok (Some entered) \<Rightarrow> (entered \<noteq> [], []))))))"

fun fill_loop :: "field_env \<Rightarrow> nat list \<Rightarrow> bool \<times> event list" where
  "fill_loop env [] = (False, [])"
| "fill_loop env (i # rest) =
     (let a = fill_attempt env i in
      if fst a then (True, Locate i # snd a)
      else (fst (fill_loop env rest), Locate i # snd a @ snd (fill_loop env rest)))"

definition fill_field_by_multiple_strategies ::
  "field_env \<Rightarrow> string \<Rightarrow> nat list \<Rightarrow> bool \<times> event list" where
  "fill_field_by_multiple_strategies env val selectors =
     (if val = [] then (False, []) else fill_loop env selectors)"

text \<open>
  Selector i accepts in the words of the specification: the element is located, it is
  displayed and enabled, the value is typed, and the value read back is not empty.
\<close>

definition field_accepts :: "field_env \<Rightarrow> nat \<Rightarrow> bool" where
  "field_accepts env i =
     (locate env i = Ok () \<and> field_displayed env i = Ok True \<and> field_enabled env i = Ok True
      \<and> fill_actions env i = Ok ()
      \<and> (case entered_value env i of Ok (Some v) \<Rightarrow> v \<noteq> [] | Ok None \<Rightarrow> False | Raise x \<Rightarrow> False))"

section \<open>Finding the submit button (dice\_step\_10.py)\<close>

text \<open>
  A button as the script reads it: the outcomes of \<open>is_displayed()\<close>, \<open>is_enabled()\<close>,
  \<open>.text\<close>, the texts of its span children and its class attribute.
\<close>

record button =
  button_id :: nat
  shown :: "bool res"
  enabled :: "bool res"
  button_text :: "string res"
  span_texts :: "string res list res"
  class_attr :: "string option res"

text \<open>
  The page as \<open>_find_submit_button\<close> sees it: the buttons each CSS selector (0 to 7) and
  XPath selector (0 to 4) finds, the answer of \<open>_verify_review_page\<close>, the outcome of the
  explicit wait for a clickable button, and all buttons of the page.
\<close>

record submit_env =
  css_buttons :: "nat \<Rightarrow> button list res"
  review_page :: bool
  xpath_buttons :: "nat \<Rightarrow> button list res"
  clickable_wait :: "button res"
  all_buttons :: "button list res"

definition lower :: "string \<Rightarrow> string" where
  "lower s = map lower_char s"

text \<open>\<open>'submit' in span.text.lower()\<close> for the first span where it holds.\<close>

fun span_contains_submit :: "string res list \<Rightarrow> bool res" where
  "span_contains_submit [] = Ok False"
| "span_contains_submit (t # rest) =
     (case t of
        Raise x \<Rightarrow> Raise x
      | Ok s \<Rightarrow> if str_contains (lower s) ''submit'' then Ok True else span_contains_submit rest)"

fun span_equals_submit :: "string res list \<Rightarrow> bool res" where
  "span_equals_submit [] = Ok False"
| "span_equals_submit (t # rest) =
     (case t of
        Raise x \<Rightarrow> Raise x
      | Ok s \<Rightarrow> if lower (strip s) = ''submit'' then Ok True else span_equals_submit rest)"

text \<open>
  The loop over the buttons of one CSS selector. \<open>'btn-next' in None\<close> raises TypeError.
\<close>

fun scan_css :: "submit_env \<Rightarrow> button list \<Rightarrow> button option res" where
  "scan_css env [] = Ok None"
| "scan_css env (b # rest) =
     (case shown b of
        Raise x \<Rightarrow> Raise x
      | Ok s \<Rightarrow>
          if \<not> s then scan_css env rest
          else
            (case enabled b of
               Raise x \<Rightarrow> Raise x
             | Ok e \<Rightarrow>
                 if \<not> e then scan_css env rest
                 else
                   (case button_text b of
                      Raise x \<Rightarrow> Raise x
                    | Ok t \<Rightarrow>
                        if str_contains (lower (strip t)) ''submit'' then Ok (Some b)
                        else
                          (case span_texts b of
                             Raise x \<Rightarrow> Raise x
                           | Ok spans \<Rightarrow>
                               (case span_contains_submit spans of
                                  Raise x \<Rightarrow> Raise x
                                | Ok found \<Rightarrow>
                                    if found then Ok (Some b)
                                    else
                                      (case class_attr b of
                                         Raise x \<Rightarrow> Raise x
                                       | Ok None \<Rightarrow> Raise TypeError
                                       | Ok (Some c) \<Rightarrow>
                                           if str_contains c ''btn-next'' \<and> review_page env
                                           then Ok (Some b)
                                           else scan_css env rest))))))"

text \<open>The loop over the buttons of one XPath selector.\<close>

fun scan_xpath :: "button list \<Rightarrow> button option res" where
  "scan_xpath [] = Ok None"
| "scan_xpath (b # rest) =
     (case shown b of
        Raise x \<Rightarrow> Raise x
      | Ok s \<Rightarrow>
          if \<not> s then scan_xpath rest
          else
            (case enabled b of
               Raise x \<Rightarrow> Raise x
             | Ok e \<Rightarrow> if e then Ok (Some b) else scan_xpath rest))"

text \<open>Strategy 4: the loop over all buttons of the page.\<close>

fun scan_all :: "button list \<Rightarrow> button option res" where
  "scan_all [] = Ok None"
| "scan_all (b # rest) =
     (case shown b of
        Raise x \<Rightarrow> Raise x
      | Ok s \<Rightarrow>
          if \<not> s then scan_all rest
          else
            (case enabled b of
               Raise x \<Rightarrow> Raise x
             | Ok e \<Rightarrow>
                 if \<not> e then scan_all rest
                 else
                   (case button_text b of
                      Raise x \<Rightarrow> Raise x
                    | Ok t \<Rightarrow>
                        if lower (strip t) = ''submit'' then Ok (Some b)
                        else
                          (case span_texts b of
                             Raise x \<Rightarrow> Raise x
                           | Ok spans \<Rightarrow>
                               (case span_equals_submit spans of
                                  Raise x \<Rightarrow> Raise x
                                | Ok found \<Rightarrow>
                                    if found then Ok (Some b) else scan_all rest)))))"

text \<open>
  The strategies are numbered in the order of the source: CSS selectors 0 to 7, XPath
  selectors 8 to 12, the explicit wait 13, the scan of all buttons 14. CSS selectors 0,
  1 and 6 contain \<open>:contains\<close> and are skipped without a query.
\<close>

definition css_selectors :: "nat list" where
  "css_selectors = [2, 3, 4, 5, 7]"

definition try_css :: "submit_env \<Rightarrow> nat \<Rightarrow> button option" where
  "try_css env i =
     (case css_buttons env i of
        Raise x \<Rightarrow> None
      | Ok buttons \<Rightarrow> (case scan_css env buttons of Raise x \<Rightarrow> None | Ok r \<Rightarrow> r))"

definition try_xpath :: "submit_env \<Rightarrow> nat \<Rightarrow> button option" where
  "try_xpath env i =
     (case xpath_buttons env i of
        Raise x \<Rightarrow> None
      | Ok buttons \<Rightarrow> (case scan_xpath buttons of Raise x \<Rightarrow> None | Ok r \<Rightarrow> r))"

definition try_all :: "submit_env \<Rightarrow> button option" where
  "try_all env =
     (case all_buttons env of
        Raise x \<Rightarrow> None
      | Ok buttons \<Rightarrow> (case scan_all buttons of Raise x \<Rightarrow> None | Ok r \<Rightarrow> r))"

text \<open>Strategy 3 and 4: only TimeoutException is caught around the wait.\<close>

definition wait_then_scan :: "submit_env \<Rightarrow> button option res \<times> event list" where
  "wait_then_scan env =
     (case clickable_wait env of
        Ok b \<Rightarrow> (Ok (Some b), [Locate 13])
      | Raise x \<Rightarrow>
          if x = TimeoutException then (Ok (try_all env), [Locate 13, Locate 14])
          else (Raise x, [Locate 13]))"

fun xpath_loop :: "submit_env \<Rightarrow> nat list \<Rightarrow> button option res \<times> event list" where
  "xpath_loop env [] = wait_then_scan env"
| "xpath_loop env (i # rest) =
     log_first (Locate (8 + i))
       (case try_xpath env i of
          Some b \<Rightarrow> (Ok (Some b), [])
        | None \<Rightarrow> xpath_loop env rest)"

fun css_loop :: "submit_env \<Rightarrow> nat list \<Rightarrow> button option res \<times> event list" where
  "css_loop env [] = xpath_loop env [0, 1, 2, 3, 4]"
| "css_loop env (i # rest) =
     log_first (Locate i)
       (case try_css env i of
          Some b \<Rightarrow> (Ok (Some b), [])
        | None \<Rightarrow> css_loop env rest)"

definition find_submit_button :: "submit_env \<Rightarrow> button option res \<times> event list" where
  "find_submit_button env = css_loop env css_selectors"

text \<open>
  The strategies in the order in which \<open>_find_submit_button\<close> queries them, and the
  strategies tried up to and including the first that satisfies a test.
\<close>

definition strategy_order :: "nat list" where
  "strategy_order = [2, 3, 4, 5, 7, 8, 9, 10, 11, 12, 13, 14]"

fun upto_first :: "('a \<Rightarrow> bool) \<Rightarrow> 'a list \<Rightarrow> 'a list" where
  "upto_first P [] = []"
| "upto_first P (x # xs) = (if P x then [x] else x # upto_first P xs)"

definition is_locate :: "event \<Rightarrow> bool" where
  "is_locate e = (case e of Locate k \<Rightarrow> True | _ \<Rightarrow> False)"

definition visible_enabled :: "button \<Rightarrow> bool" where
  "visible_enabled b = (shown b = Ok True \<and> enabled b = Ok True)"

text \<open>The explicit wait returns a clickable button or times out.\<close>

definition wait_as_documented :: "submit_env \<Rightarrow> bool" where
  "wait_as_documented env =
     (case clickable_wait env of
        Ok b \<Rightarrow> visible_enabled b
      | Raise x \<Rightarrow> x = TimeoutException)"

text \<open>
  The resolver in the words of the specification: the candidates of the strategies in
  the listed order (a strategy that raises has none), and the first candidate that is
  present, visible and enabled.
\<close>

definition strategy_candidates :: "submit_env \<Rightarrow> nat \<Rightarrow> button list" where
  "strategy_candidates env k =
     (if k < 8 then (case css_buttons env k of Ok bs \<Rightarrow> bs | Raise x \<Rightarrow> [])
      else if k < 13 then (case xpath_buttons env (k - 8) of Ok bs \<Rightarrow> bs | Raise x \<Rightarrow> [])
      else if k = 13 then (case clickable_wait env of Ok b \<Rightarrow> [b] | Raise x \<Rightarrow> [])
      else (case all_buttons env of Ok bs \<Rightarrow> bs | Raise x \<Rightarrow> []))"

definition first_visible_enabled :: "submit_env \<Rightarrow> button option" where
  "first_visible_enabled env =
     find visible_enabled (concat (map (strategy_candidates env) [0..<15]))"

text \<open>
  The tests of the strategies in the words of the specification. A button passes the test
  of a CSS strategy when it is displayed and enabled and its text contains submit, or the
  text of one of its spans does, or its class contains btn-next on the review page; the
  test of an XPath strategy and of the explicit wait is that it is displayed and enabled;
  the test of the scan of all buttons asks for a text, or a span text, equal to submit.
\<close>

definition text_contains_submit :: "button \<Rightarrow> bool" where
  "text_contains_submit b =
     (case button_text b of
        Ok t \<Rightarrow> str_contains (lower (strip t)) ''submit''
      | Raise x \<Rightarrow> False)"

definition span_with_submit :: "button \<Rightarrow> bool" where
  "span_with_submit b =
     (case span_texts b of
        Ok spans \<Rightarrow>
          list_ex (\<lambda>t. case t of Ok s \<Rightarrow> str_contains (lower s) ''submit'' | Raise x \<Rightarrow> False) spans
      | Raise x \<Rightarrow> False)"

definition btn_next_on_review :: "submit_env \<Rightarrow> button \<Rightarrow> bool" where
  "btn_next_on_review env b =
     (case class_attr b of
        Ok (Some c) \<Rightarrow> str_contains c ''btn-next'' \<and> review_page env
      | Ok None \<Rightarrow> False
      | Raise x \<Rightarrow> False)"

definition css_accepts :: "submit_env \<Rightarrow> button \<Rightarrow> bool" where
  "css_accepts env b =
     (visible_enabled b
      \<and> (text_contains_submit b \<or> span_with_submit b \<or> btn_next_on_review env b))"

definition text_is_submit :: "button \<Rightarrow> bool" where
  "text_is_submit b =
     (case button_text b of Ok t \<Rightarrow> lower (strip t) = ''submit'' | Raise x \<Rightarrow> False)"

definition span_is_submit :: "button \<Rightarrow> bool" where
  "span_is_submit b =
     (case span_texts b of
        Ok spans \<Rightarrow>
          list_ex (\<lambda>t. case t of Ok s \<Rightarrow> lower (strip s) = ''submit'' | Raise x \<Rightarrow> False) spans
      | Raise x \<Rightarrow> False)"

definition scan_accepts :: "button \<Rightarrow> bool" where
  "scan_accepts b = (visible_enabled b \<and> (text_is_submit b \<or> span_is_submit b))"

definition acceptable :: "submit_env \<Rightarrow> nat \<Rightarrow> button \<Rightarrow> bool" where
  "acceptable env k b =
     (if k < 8 then css_accepts env b
      else if k < 14 then visible_enabled b
      else scan_accepts b)"

text \<open>
  What strategy k returns when it is reached (None when it goes on to the next one), the
  strategies that accept, and the button of the first strategy that accepts.
\<close>

definition strategy_result :: "submit_env \<Rightarrow> nat \<Rightarrow> button option" where
  "strategy_result env k =
     (if k < 8 then try_css env k
      else if k < 13 then try_xpath env (k - 8)
      else if k = 13 then (case clickable_wait env of Ok b \<Rightarrow> Some b | Raise x \<Rightarrow> None)
      else try_all env)"

definition accepts :: "submit_env \<Rightarrow> nat \<Rightarrow> bool" where
  "accepts env k = (strategy_result env k \<noteq> None)"

definition first_accepted :: "submit_env \<Rightarrow> button option" where
  "first_accepted env =
     (case find (accepts env) strategy_order of
        None \<Rightarrow> None
      | Some k \<Rightarrow> strategy_result env k)"

text \<open>
  Strategy k raises: its query raises, or a read of one of the buttons it inspects does.
  A button is readable when none of its reads raises and it has a class attribute.
\<close>

definition raised :: "'a res \<Rightarrow> bool" where
  "raised r = (case r of Ok v \<Rightarrow> False | Raise x \<Rightarrow> True)"

definition query_raises :: "submit_env \<Rightarrow> nat \<Rightarrow> bool" where
  "query_raises env k =
     (if k < 8 then raised (css_buttons env k)
      else if k < 13 then raised (xpath_buttons env (k - 8))
      else if k = 13 then raised (clickable_wait env)
      else raised (all_buttons env))"

definition strategy_raises :: "submit_env \<Rightarrow> nat \<Rightarrow> bool" where
  "strategy_raises env k =
     (query_raises env k
      \<or> (if k < 8 then raised (scan_css env (strategy_candidates env k))
          else if k < 13 then raised (scan_xpath (strategy_candidates env k))
          else if k = 13 then False
          else raised (scan_all (strategy_candidates env k))))"

definition readable :: "button \<Rightarrow> bool" where
  "readable b =
     (\<not> raised (shown b) \<and> \<not> raised (enabled b) \<and> \<not> raised (button_text b)
      \<and> (case span_texts b of Ok spans \<Rightarrow> list_all (\<lambda>t. \<not> raised t) spans | Raise x \<Rightarrow> False)
      \<and> (case class_attr b of Ok (Some c) \<Rightarrow> True | Ok None \<Rightarrow> False | Raise x \<Rightarrow> False))"

text \<open>A review step whose Next button is found before its Submit button.\<close>

definition next_button :: button where
  "next_button =
     \<lparr>button_id = 1, shown = Ok True, enabled = Ok True, button_text = Ok ''Next'',
      span_texts = Ok [], class_attr = Ok (Some ''btn-next'')\<rparr>"

definition submit_button :: button where
  "submit_button =
     \<lparr>button_id = 2, shown = Ok True, enabled = Ok True, button_text = Ok ''Submit'',
      span_texts = Ok [], class_attr = Ok (Some ''seds-button-primary'')\<rparr>"

definition next_before_submit :: submit_env where
  "next_before_submit =
     \<lparr>css_buttons = (\<lambda>i. if i = 3 then Ok [next_button] else Ok []),
      review_page = False,
      xpath_buttons = (\<lambda>i. if i = 0 then Ok [submit_button] else Ok []),
      clickable_wait = Ok submit_button,
      all_buttons = Ok [next_button, submit_button]\<rparr>"

definition no_button_page :: submit_env where
  "no_button_page =
     \<lparr>css_buttons = (\<lambda>i. if i = 2 then Raise WebDriverException else Ok []),
      review_page = False,
      xpath_buttons = (\<lambda>i. Ok []),
      clickable_wait = Raise TimeoutException,
      all_buttons = Ok []\<rparr>"

definition email_field :: field_env where
  "email_field =
     \<lparr>locate = (\<lambda>i. if i = 0 then Raise TimeoutException else Ok ()),
      field_displayed = (\<lambda>i. Ok True),
      field_enabled = (\<lambda>i. Ok True),
      fill_actions = (\<lambda>i. Ok ()),
      entered_value = (\<lambda>i. if i = 1 then Ok (Some []) else Ok (Some ''user@example.com''))\<rparr>"

section \<open>Filling the candidate form (aps\_automation.py)\<close>

datatype field_name = FirstName | LastName | Email | Phone | JobType | Resume

text \<open>
  What \<open>_fill_job_candidate_form\<close> is given: the outcome of the wait for the form, the
  profile values (\<open>user_profile.get(key, '')\<close>), the industry of the job board, the page
  as each field's selectors see it, the resume path, the answer of \<open>_upload_resume\<close>
  (which catches every exception), and the stop callback (absent, or called with an
  outcome).
\<close>

record form_env =
  form_present :: "unit res"
  profile_value :: "field_name \<Rightarrow> string"
  board_industry :: string
  field_page :: "field_name \<Rightarrow> field_env"
  resume_path :: "string option"
  upload_resume :: bool
  stop_check :: "bool res option"

definition contact_selectors :: "nat list" where
  "contact_selectors = [0, 1, 2, 3]"

definition job_type_selectors :: "nat list" where
  "job_type_selectors = [0, 1, 2, 3, 4, 5, 6, 7, 8]"

definition contact_filled :: "form_env \<Rightarrow> field_name \<Rightarrow> bool" where
  "contact_filled env f =
     fst (fill_field_by_multiple_strategies (field_page env f) (profile_value env f)
            contact_selectors)"

text \<open>The keys of \<open>filled_fields\<close>, in the order in which the function sets them.\<close>

definition filled_fields :: "form_env \<Rightarrow> field_name list" where
  "filled_fields env =
     (if contact_filled env FirstName then [FirstName] else [])
     @ (if contact_filled env LastName then [LastName] else [])
     @ (if contact_filled env Email then [Email] else [])
     @ (if contact_filled env Phone then [Phone] else [])
     @ (if fst (fill_field_by_multiple_strategies (field_page env JobType)
                  (board_industry env @ '' - Full-time opportunities'') job_type_selectors)
        then [JobType] else [])
     @ (case resume_path env of
          None \<Rightarrow> []
        | Some path \<Rightarrow> if path \<noteq> [] \<and> upload_resume env then [Resume] else [])"

definition required_fields :: "field_name list" where
  "required_fields = [FirstName, LastName, Email, Phone]"

definition missing_fields :: "form_env \<Rightarrow> field_name list" where
  "missing_fields env = filter (\<lambda>f. f \<notin> set (filled_fields env)) required_fields"

text \<open>
  \<open>_fill_job_candidate_form\<close>: every exception inside returns False; a stop request
  returns False; otherwise the result is decided by the missing required fields.
\<close>

definition fill_job_candidate_form :: "form_env \<Rightarrow> bool" where
  "fill_job_candidate_form env =
     (case form_present env of
        Raise x \<Rightarrow> False
      | Ok u \<Rightarrow>
          (let filled = filled_fields env in
           case stop_check env of
             Some (Raise x) \<Rightarrow> False
           | Some (Ok True) \<Rightarrow> False
           | _ \<Rightarrow>
               (let missing = filter (\<lambda>f. f \<notin> set filled) required_fields in
                if missing \<noteq> [] then length missing \<le> 1 else True)))"

text \<open>The form was found and no stop was requested, so the final check is reached.\<close>

definition reaches_check :: "form_env \<Rightarrow> bool" where
  "reaches_check env =
     (form_present env = Ok ()
      \<and> (stop_check env = None \<or> stop_check env = Some (Ok False)))"

text \<open>A field that takes its value with every selector.\<close>

definition accepting_field :: field_env where
  "accepting_field =
     \<lparr>locate = (\<lambda>i. Ok ()), field_displayed = (\<lambda>i. Ok True), field_enabled = (\<lambda>i. Ok True),
      fill_actions = (\<lambda>i. Ok ()), entered_value = (\<lambda>i. Ok (Some ''x''))\<rparr>"

text \<open>
  A field that no selector locates, and the form on which the fields of a list cannot be
  located, with a stop callback.
\<close>

definition unresolvable_field :: field_env where
  "unresolvable_field =
     \<lparr>locate = (\<lambda>i. Raise TimeoutException), field_displayed = (\<lambda>i. Ok True),
      field_enabled = (\<lambda>i. Ok True), fill_actions = (\<lambda>i. Ok ()),
      entered_value = (\<lambda>i. Ok (Some ''x''))\<rparr>"

definition form_missing :: "field_name list \<Rightarrow> bool res option \<Rightarrow> form_env" where
  "form_missing absent stop =
     \<lparr>form_present = Ok (),
      profile_value = (\<lambda>f. ''x''),
      board_industry = ''Manufacturing'',
      field_page = (\<lambda>f. if f \<in> set absent then unresolvable_field else accepting_field),
      resume_path = None, upload_resume = False, stop_check = stop\<rparr>"


section \<open>Properties of the click helpers\<close>

lemma click_methods_loop_True: "fst (click_methods_loop env is) = True"
  by (induction "is") (auto simp: log_first_def split: res.splits)

lemma click_strategies_loop_True: "fst (click_strategies_loop env is) = True"
  by (induction "is") (auto simp: log_first_def split: res.splits)

lemma click_methods_loop_exhaust:
  "list_all (button_unconfirmed env) is \<Longrightarrow>
     click_methods_loop env is = (True, map ClickAttempt is)"
  by (induction "is") (auto simp: log_first_def button_unconfirmed_def split: res.splits)

lemma click_strategies_loop_exhaust:
  "list_all (job_unconfirmed env) is \<Longrightarrow>
     click_strategies_loop env is = (True, map ClickAttempt is)"
  by (induction "is") (auto simp: log_first_def job_unconfirmed_def split: res.splits)

text \<open>
  C8. When every click method was tried and none was confirmed (each one raised, or the
  check after it saw no change), \<open>_click_button_safely\<close> returns True; so does
  \<open>_click_job_element\<close> once the element was scrolled into view. The trace shows that
  all four methods were attempted, in order.
\<close>

theorem C8_unconfirmed_click_returns_True:
  "(list_all (button_unconfirmed benv) [0, 1, 2, 3] \<longrightarrow>
      click_button_safely benv = (True, map ClickAttempt [0, 1, 2, 3]))
   \<and> (scroll_into_view jenv = Ok () \<and> list_all (job_unconfirmed jenv) [0, 1, 2, 3] \<longrightarrow>
      click_job_element jenv = (True, map ClickAttempt [0, 1, 2, 3]))"
  unfolding click_button_safely_def click_job_element_def
  using click_methods_loop_exhaust [of benv "[0, 1, 2, 3]"]
        click_strategies_loop_exhaust [of jenv "[0, 1, 2, 3]"]
  by simp

theorem C8_witness:
  "list_all (button_unconfirmed
       \<lparr>click_method = (\<lambda>i. Raise WebDriverException), still_displayed = (\<lambda>i. Ok True)\<rparr>)
     [0, 1, 2, 3]
   \<and> click_button_safely
       \<lparr>click_method = (\<lambda>i. Raise WebDriverException), still_displayed = (\<lambda>i. Ok True)\<rparr>
     = (True, map ClickAttempt [0, 1, 2, 3])
   \<and> list_all (job_unconfirmed
       \<lparr>scroll_into_view = Ok (), click_strategy = (\<lambda>i. Raise WebDriverException),
        url_differs = (\<lambda>i. Ok False)\<rparr>) [0, 1, 2, 3]
   \<and> click_job_element
       \<lparr>scroll_into_view = Ok (), click_strategy = (\<lambda>i. Raise WebDriverException),
        url_differs = (\<lambda>i. Ok False)\<rparr>
     = (True, map ClickAttempt [0, 1, 2, 3])"
  using C8_unconfirmed_click_returns_True
    [of "\<lparr>click_method = (\<lambda>i. Raise WebDriverException), still_displayed = (\<lambda>i. Ok True)\<rparr>"
        "\<lparr>scroll_into_view = Ok (), click_strategy = (\<lambda>i. Raise WebDriverException),
          url_differs = (\<lambda>i. Ok False)\<rparr>"]
  by (simp add: button_unconfirmed_def job_unconfirmed_def)

section \<open>Properties of cataloging\<close>

lemma str_contains_nonempty: "str_contains h job_detail \<Longrightarrow> h \<noteq> []"
  by (auto simp: job_detail_def)

lemma vlh_Some_iff:
  "visible_listing_href e = Some h \<longleftrightarrow>
     is_displayed e = Ok True \<and> attr_error e = None \<and> href e = Some h \<and> str_contains h job_detail"
  by (auto simp: visible_listing_href_def listing_href_def split: option.splits if_splits)

lemma collect_elements_inv:
  assumes "seen = (\<lambda>e. the (href e)) ` set acc"
      and "distinct (map href acc)"
      and "\<forall>e\<in>set acc. visible_listing_href e \<noteq> None"
  shows "fst (collect_elements es (seen, acc)) = seen \<union> vl es
       \<and> fst (collect_elements es (seen, acc)) = (\<lambda>e. the (href e)) ` set (snd (collect_elements es (seen, acc)))
       \<and> distinct (map href (snd (collect_elements es (seen, acc))))
       \<and> (\<forall>e\<in>set (snd (collect_elements es (seen, acc))). visible_listing_href e \<noteq> None)"
  using assms
proof (induction es arbitrary: seen acc)
  case Nil
  then show ?case by (simp add: vl_def)
next
  case (Cons e es)
  show ?case
  proof (cases "\<exists>h. visible_listing_href e = Some h \<and> h \<notin> seen")
    case True
    then obtain h where h: "visible_listing_href e = Some h" "h \<notin> seen" by blast
    then have eq: "collect_elements (e # es) (seen, acc) = collect_elements es (insert h seen, acc @ [e])"
      using str_contains_nonempty by (auto simp: vlh_Some_iff get_attribute_href_def)
    have 1: "insert h seen = (\<lambda>e. the (href e)) ` set (acc @ [e])"
      using Cons.prems(1) h by (auto simp: vlh_Some_iff)
    have "Some h \<notin> set (map href acc)"
    proof
      assume "Some h \<in> set (map href acc)"
      then obtain x where x: "x \<in> set acc" "href x = Some h" by auto
      then have "the (href x) = h" by simp
      with x(1) Cons.prems(1) h(2) show False by blast
    qed
    then have 2: "distinct (map href (acc @ [e]))"
      using Cons.prems(2) h(1) by (simp add: vlh_Some_iff)
    have 3: "\<forall>e\<in>set (acc @ [e]). visible_listing_href e \<noteq> None"
      using Cons.prems h by auto
    from Cons.IH[OF 1 2 3] show ?thesis unfolding eq using h by (auto simp: vl_def)
  next
    case False
    then have eq: "collect_elements (e # es) (seen, acc) = collect_elements es (seen, acc)"
      by (auto simp: vlh_Some_iff get_attribute_href_def split: res.splits option.splits)
    from Cons.IH[OF Cons.prems] show ?thesis unfolding eq using False by (auto simp: vl_def)
  qed
qed

lemma vl_mono: "set es \<subseteq> set ds \<Longrightarrow> vl es \<subseteq> vl ds"
  by (auto simp: vl_def)

lemma vl_generic: "vl (filter (css_match 8) ds) = vl ds"
  by (auto simp: vl_def css_match_def vlh_Some_iff)

lemma collect_selectors_inv:
  assumes "seen = (\<lambda>e. the (href e)) ` set acc"
      and "distinct (map href acc)"
      and "\<forall>e\<in>set acc. visible_listing_href e \<noteq> None"
  shows "seen \<subseteq> fst (collect_selectors pg sels (seen, acc))
       \<and> fst (collect_selectors pg sels (seen, acc)) \<subseteq> seen \<union> vl (dom pg)
       \<and> (8 \<in> set sels \<and> selector_error pg 8 = None \<longrightarrow>
            vl (dom pg) \<subseteq> fst (collect_selectors pg sels (seen, acc)))
       \<and> fst (collect_selectors pg sels (seen, acc)) =
           (\<lambda>e. the (href e)) ` set (snd (collect_selectors pg sels (seen, acc)))
       \<and> distinct (map href (snd (collect_selectors pg sels (seen, acc))))
       \<and> (\<forall>e\<in>set (snd (collect_selectors pg sels (seen, acc))). visible_listing_href e \<noteq> None)"
  using assms
proof (induction sels arbitrary: seen acc)
  case Nil
  then show ?case by simp
next
  case (Cons i sels)
  show ?case
  proof (cases "selector_error pg i")
    case (Some x)
    then have eq: "collect_selectors pg (i # sels) (seen, acc) = collect_selectors pg sels (seen, acc)"
      by (simp add: find_elements_def)
    from Cons.IH[OF Cons.prems] Some show ?thesis unfolding eq by auto
  next
    case None
    let ?es = "filter (css_match i) (dom pg)"
    let ?st = "collect_elements ?es (seen, acc)"
    have eq: "collect_selectors pg (i # sels) (seen, acc) = collect_selectors pg sels (fst ?st, snd ?st)"
      using None by (simp add: find_elements_def)
    note ce = collect_elements_inv[OF Cons.prems, of ?es]
    have d: "fst ?st = seen \<union> vl ?es" by (rule ce[THEN conjunct1])
    have a: "fst ?st = (\<lambda>e. the (href e)) ` set (snd ?st)"
      by (rule ce[THEN conjunct2, THEN conjunct1])
    have b: "distinct (map href (snd ?st))"
      by (rule ce[THEN conjunct2, THEN conjunct2, THEN conjunct1])
    have c: "\<forall>e\<in>set (snd ?st). visible_listing_href e \<noteq> None"
      by (rule ce[THEN conjunct2, THEN conjunct2, THEN conjunct2])
    have sub: "vl ?es \<subseteq> vl (dom pg)" by (rule vl_mono) auto
    let ?r = "collect_selectors pg sels (fst ?st, snd ?st)"
    note ih = Cons.IH[OF a b c]
    have i1: "fst ?st \<subseteq> fst ?r" by (rule ih[THEN conjunct1])
    have i2: "fst ?r \<subseteq> fst ?st \<union> vl (dom pg)" by (rule ih[THEN conjunct2, THEN conjunct1])
    have i3: "8 \<in> set sels \<and> selector_error pg 8 = None \<longrightarrow> vl (dom pg) \<subseteq> fst ?r"
      by (rule ih[THEN conjunct2, THEN conjunct2, THEN conjunct1])
    have i4: "fst ?r = (\<lambda>e. the (href e)) ` set (snd ?r)"
      by (rule ih[THEN conjunct2, THEN conjunct2, THEN conjunct2, THEN conjunct1])
    have i5: "distinct (map href (snd ?r))"
      by (rule ih[THEN conjunct2, THEN conjunct2, THEN conjunct2, THEN conjunct2, THEN conjunct1])
    have i6: "\<forall>e\<in>set (snd ?r). visible_listing_href e \<noteq> None"
      by (rule ih[THEN conjunct2, THEN conjunct2, THEN conjunct2, THEN conjunct2, THEN conjunct2])
    have g1: "seen \<subseteq> fst ?r" using i1 unfolding d by (rule le_supE)
    have g2: "fst ?r \<subseteq> seen \<union> vl (dom pg)"
    proof -
      have "fst ?st \<union> vl (dom pg) \<subseteq> seen \<union> vl (dom pg)" unfolding d using sub by blast
      with i2 show ?thesis by (rule subset_trans)
    qed
    have g3: "8 \<in> set (i # sels) \<and> selector_error pg 8 = None \<longrightarrow> vl (dom pg) \<subseteq> fst ?r"
    proof (cases "i = 8")
      case True
      then have "vl ?es = vl (dom pg)" by (simp add: vl_generic)
      then have "vl (dom pg) \<subseteq> fst ?st" unfolding d by blast
      then have "vl (dom pg) \<subseteq> fst ?r" using i1 by (rule subset_trans)
      then show ?thesis by simp
    next
      case False
      with i3 show ?thesis by simp
    qed
    show ?thesis unfolding eq using g1 g2 g3 i4 i5 i6 by (intro conjI)
  qed
qed

lemma distinct_map_insort_key:
  "distinct (map g (insort_key f x xs)) = (g x \<notin> g ` set xs \<and> distinct (map g xs))"
  by (induction xs) (auto simp: set_insort_key)

lemma distinct_map_sort_key: "distinct (map g (sort_key f xs)) = distinct (map g xs)"
  by (induction xs) (simp_all add: distinct_map_insort_key)

lemma sort_by_position_props:
  "length (sort_by_position es) = length es"
  "set (sort_by_position es) = set es"
  "distinct (map g (sort_by_position es)) = distinct (map g es)"
  by (simp_all add: sort_by_position_def distinct_map_sort_key)

lemma sort_by_position_sorted:
  "list_all location_ok (sort_by_position es) \<Longrightarrow> sorted (map position_key (sort_by_position es))"
  by (auto simp: sort_by_position_def list_all_iff sorted_sort_key)

lemma set_map_filter_eq: "set (List.map_filter f xs) = {y. \<exists>x\<in>set xs. f x = Some y}"
  by (induction xs) (auto simp: map_filter_simps split: option.splits)

lemma set_visible_listing_hrefs: "set (visible_listing_hrefs pg) = vl (dom pg)"
  by (simp add: visible_listing_hrefs_def vl_def set_map_filter_eq)

lemma catalog_raw:
  fixes pg
  defines "st \<equiv> collect_selectors pg [0, 1, 2, 3, 4, 5, 6, 7, 8] ({}, [])"
  shows "distinct (map href (snd st))"
    and "selector_error pg 8 = None \<Longrightarrow> (\<lambda>e. the (href e)) ` set (snd st) = vl (dom pg)"
    and "\<forall>e\<in>set (snd st). visible_listing_href e \<noteq> None"
proof -
  have p1: "({}::string set) = (\<lambda>e. the (href e)) ` set ([]::element list)" by simp
  have p2: "distinct (map href ([]::element list))" by simp
  have p3: "\<forall>e\<in>set ([]::element list). visible_listing_href e \<noteq> None" by simp
  note inv = collect_selectors_inv[OF p1 p2 p3, of pg "[0, 1, 2, 3, 4, 5, 6, 7, 8]", folded st_def]
  have i2: "fst st \<subseteq> {} \<union> vl (dom pg)" by (rule inv[THEN conjunct2, THEN conjunct1])
  have i3: "8 \<in> set [0, 1, 2, 3, 4, 5, 6, 7, 8::nat] \<and> selector_error pg 8 = None \<longrightarrow> vl (dom pg) \<subseteq> fst st"
    by (rule inv[THEN conjunct2, THEN conjunct2, THEN conjunct1])
  have i4: "fst st = (\<lambda>e. the (href e)) ` set (snd st)"
    by (rule inv[THEN conjunct2, THEN conjunct2, THEN conjunct2, THEN conjunct1])
  show "distinct (map href (snd st))"
    by (rule inv[THEN conjunct2, THEN conjunct2, THEN conjunct2, THEN conjunct2, THEN conjunct1])
  show "\<forall>e\<in>set (snd st). visible_listing_href e \<noteq> None"
    by (rule inv[THEN conjunct2, THEN conjunct2, THEN conjunct2, THEN conjunct2, THEN conjunct2])
  show "(\<lambda>e. the (href e)) ` set (snd st) = vl (dom pg)" if g: "selector_error pg 8 = None"
  proof -
    have "8 \<in> set [0, 1, 2, 3, 4, 5, 6, 7, 8::nat]" by simp
    with i3 g have "vl (dom pg) \<subseteq> fst st" by blast
    moreover from i2 have "fst st \<subseteq> vl (dom pg)" by simp
    ultimately have "fst st = vl (dom pg)" by (rule subset_antisym[rotated])
    then show ?thesis unfolding i4 .
  qed
qed

lemma catalog_count:
  assumes d: "distinct (map href raw)"
      and v: "\<forall>e\<in>set raw. visible_listing_href e \<noteq> None"
      and s: "(\<lambda>e. the (href e)) ` set raw = S"
  shows "length raw = card S" and "href ` set raw = Some ` S"
proof -
  have some: "\<exists>h. href e = Some h" if "e \<in> set raw" for e
    using v that by (auto simp: vlh_Some_iff)
  have maps: "map href raw = map Some (map (\<lambda>e. the (href e)) raw)"
    unfolding map_map by (rule map_cong[OF refl]) (use some in auto)
  have dh: "distinct (map (\<lambda>e. the (href e)) raw)"
    using d unfolding maps map_map by (auto simp: distinct_map dest: inj_on_imageI2)
  show "length raw = card S"
    using distinct_card[OF dh] s by simp
  have "set (map href raw) = set (map Some (map (\<lambda>e. the (href e)) raw))"
    by (simp only: maps)
  then have "href ` set raw = Some ` (\<lambda>e. the (href e)) ` set raw"
    by (simp only: set_map)
  then show "href ` set raw = Some ` S"
    unfolding s .
qed

lemma two_listing_catalog:
  "find_all_job_elements two_listing_page =
     [\<lparr>href = Some ''/job-detail/1'', is_displayed = Ok True, attr_error = None,
       location = Ok (0, 10), marks = [0]\<rparr>,
      \<lparr>href = Some ''/job-detail/2'', is_displayed = Ok True, attr_error = None,
       location = Ok (0, 50), marks = [0, 2]\<rparr>]"
  by (simp add: two_listing_page_def find_all_job_elements_def find_elements_def css_match_def
      job_detail_def sort_by_position_def get_attribute_href_def location_ok_def position_key_def)

lemma two_listing_hrefs:
  "visible_listing_hrefs two_listing_page = [''/job-detail/1'', ''/job-detail/2'']"
  by (simp add: two_listing_page_def visible_listing_hrefs_def visible_listing_href_def
      listing_href_def map_filter_simps job_detail_def)

lemma two_listing_selector: "selector_error two_listing_page 8 = None"
  by (simp add: two_listing_page_def)

text \<open>
  C1 (as amended). The catalog never holds two elements with the same href, whatever the
  selectors return. When the generic selector does not raise, the catalog has exactly one
  entry for each distinct \<open>/job-detail/\<close> href among the elements that are displayed
  and readable, and its hrefs are exactly those. When the position of every cataloged
  element can be read, the catalog is sorted by (y, x), top to bottom.
\<close>

theorem C1_catalog_of_visible_listings:
  "distinct (map href (find_all_job_elements pg))
   \<and> (selector_error pg 8 = None \<longrightarrow>
        length (find_all_job_elements pg) = length (visible_listing_hrefs pg)
      \<and> set (map href (find_all_job_elements pg)) = Some ` set (visible_listing_hrefs pg))
   \<and> (list_all location_ok (find_all_job_elements pg) \<longrightarrow>
        sorted (map position_key (find_all_job_elements pg)))"
proof -
  define raw where "raw = snd (collect_selectors pg [0, 1, 2, 3, 4, 5, 6, 7, 8] ({}, []))"
  have cat: "find_all_job_elements pg = sort_by_position raw"
    unfolding raw_def by (rule find_all_job_elements_def)
  have d: "distinct (map href raw)" unfolding raw_def by (rule catalog_raw(1))
  have v: "\<forall>e\<in>set raw. visible_listing_href e \<noteq> None"
    unfolding raw_def by (rule catalog_raw(3))
  have c1: "distinct (map href (find_all_job_elements pg))"
    using d by (simp add: cat sort_by_position_props(3))
  have c2: "length (find_all_job_elements pg) = length (visible_listing_hrefs pg)
      \<and> set (map href (find_all_job_elements pg)) = Some ` set (visible_listing_hrefs pg)"
    if g: "selector_error pg 8 = None"
  proof -
    have im: "(\<lambda>e. the (href e)) ` set raw = set (visible_listing_hrefs pg)"
      unfolding set_visible_listing_hrefs raw_def by (rule catalog_raw(2)[OF g])
    have "card (set (visible_listing_hrefs pg)) = length (visible_listing_hrefs pg)"
      unfolding visible_listing_hrefs_def by (rule distinct_card) simp
    with catalog_count[OF d v im] show ?thesis
      by (simp add: cat sort_by_position_props)
  qed
  have c3: "sorted (map position_key (find_all_job_elements pg))"
    if "list_all location_ok (find_all_job_elements pg)"
    using that unfolding cat by (rule sort_by_position_sorted)
  from c1 c2 c3 show ?thesis by blast
qed

theorem C1_witness:
  "selector_error two_listing_page 8 = None
   \<and> list_all location_ok (find_all_job_elements two_listing_page)
   \<and> length (find_all_job_elements two_listing_page) = 2
   \<and> length (visible_listing_hrefs two_listing_page) = 2
   \<and> sorted (map position_key (find_all_job_elements two_listing_page))"
  using C1_catalog_of_visible_listings [of two_listing_page]
  by (simp add: two_listing_catalog two_listing_hrefs two_listing_selector location_ok_def
      position_key_def)

text \<open>
  C1 as stated fails: a page whose DOM holds one listing link that is not displayed has
  one distinct \<open>/job-detail/\<close> href and an empty catalog.
\<close>

theorem C1_counterexample:
  "length (find_all_job_elements hidden_listing_page) \<noteq> length (dom_listing_hrefs hidden_listing_page)"
  by (simp add: hidden_listing_page_def find_all_job_elements_def find_elements_def css_match_def
      job_detail_def sort_by_position_def dom_listing_hrefs_def listing_href_def map_filter_simps)

section \<open>Properties of selecting a catalog entry\<close>

lemma hidden_listing_catalog: "find_all_job_elements hidden_listing_page = []"
  by (simp add: hidden_listing_page_def find_all_job_elements_def find_elements_def css_match_def
      job_detail_def sort_by_position_def)

text \<open>
  C10. For every job index that is at least the number of job elements found on the page
  (zero elements included), step 4 returns the failure dictionary with that index and
  an error, makes no click attempt and leaves the browser as it was.
\<close>

theorem C10_index_out_of_range:
  "int (length (find_all_job_elements (listing_page env))) \<le> job_index \<Longrightarrow>
     \<exists>err. step_4_apply_to_job_index env b job_index = (Some (NotSelected job_index err), b, [])"
  by (auto simp: step_4_apply_to_job_index_def step4_failed_def Let_def split: res.splits)

theorem C10_witness:
  "int (length (find_all_job_elements (listing_page (quiet_step4_env two_listing_page)))) \<le> 2
   \<and> (\<exists>err. step_4_apply_to_job_index (quiet_step4_env two_listing_page) one_window 2
              = (Some (NotSelected 2 err), one_window, []))
   \<and> int (length (find_all_job_elements (listing_page (quiet_step4_env hidden_listing_page)))) \<le> 0
   \<and> (\<exists>err. step_4_apply_to_job_index (quiet_step4_env hidden_listing_page) one_window 0
              = (Some (NotSelected 0 err), one_window, []))"
  using C10_index_out_of_range [of "quiet_step4_env two_listing_page" 2 one_window]
        C10_index_out_of_range [of "quiet_step4_env hidden_listing_page" 0 one_window]
  by (simp add: quiet_step4_env_def two_listing_catalog hidden_listing_catalog)

section \<open>Properties of returning to the results page\<close>





lemma switch_open:
  "h \<in> set (window_handles b) \<Longrightarrow> switch_to_window h b = Ok (b\<lparr>current := h\<rparr>)"
  by (simp add: switch_to_window_def)












text \<open>
  Without a focused window no navigation succeeds, and the results address is not
  restored: the hypothesis on the browser is needed.
\<close>

lemma closed_focus_not_restored:
  "navigation_succeeds (one_job\<lparr>apply_at := (\<lambda>i. applied_ok (detail_browser\<lparr>current := 9\<rparr>))\<rparr>)
     0 results_url
   \<and> current_url (driver (process_job
       (one_job\<lparr>apply_at := (\<lambda>i. applied_ok (detail_browser\<lparr>current := 9\<rparr>))\<rparr>)
       ''dev'' None results_url 2 loop_start 0)) \<noteq> Ok results_url"
  by (simp add: process_job_def one_job_def applied_ok_def apply_phase_def step4_success_def
      detail_browser_def current_url_def return_to_results_def step_5_loop_return_def
      step_5_body_def step_5_give_up_def driver_get_def window_handles_def recover_def
      navigation_succeeds_def quiet_step5_def)

text \<open>
  When every \<open>driver.get\<close> of the iteration raises, the four attempts to go back (step 5,
  its recovery, the loop's own navigation and the handler's) all fail and the browser
  stays on the job detail page, although it is well formed and the entry is not the last
  one: the hypothesis on the navigation is needed. The same happens when the browser
  answers the navigation with another address.
\<close>

lemma failed_navigation_not_restored:
  "well_formed (left_browser (apply_at stuck_jobs 0))
   \<and> current_url (driver (process_job stuck_jobs ''dev'' None results_url 3 loop_start 0))
       = Ok ''https://www.dice.com/job-detail/1''"
  by (simp add: process_job_def stuck_jobs_def stuck_step5_def applied_ok_def apply_phase_def
      step4_success_def detail_browser_def current_url_def return_to_results_def
      step_5_loop_return_def step_5_body_def step_5_give_up_def driver_get_def
      window_handles_def recover_def well_formed_def handle_tabs_def and_then_def
      navigate_to_results_def results_url_def)

lemma redirected_navigation_not_restored:
  "well_formed (left_browser (apply_at redirected_jobs 0))
   \<and> current_url (driver (process_job redirected_jobs ''dev'' None results_url 3 loop_start 0))
       = Ok ''https://www.dice.com/login''"
  by (simp add: process_job_def redirected_jobs_def redirected_step5_def applied_ok_def apply_phase_def
      step4_success_def detail_browser_def current_url_def return_to_results_def
      step_5_loop_return_def step_5_body_def step_5_give_up_def driver_get_def show_address_def
      window_handles_def recover_def well_formed_def handle_tabs_def and_then_def
      navigate_to_results_def results_url_def verify_on_results_page_def job_detail_def)

section \<open>Properties of the application loop and the run\<close>

lemma process_job_counts:
  "applications_completed (process_job env search place url n st i)
     = applications_completed st + (if counted env i then 1 else 0)"
  "map entry_index (applied (process_job env search place url n st i))
     = map entry_index (applied st) @ (if counted env i then [i] else [])"
  "trace (process_job env search place url n st i) = trace st @ [ProcessingJob i]"
  by (auto simp: process_job_def counted_def Let_def split: res.splits outcome.splits)

lemma loop_counts:
  "applications_completed (foldl (process_job env search place url n) st xs)
     = applications_completed st + length (filter (counted env) xs)
   \<and> map entry_index (applied (foldl (process_job env search place url n) st xs))
     = map entry_index (applied st) @ filter (counted env) xs
   \<and> trace (foldl (process_job env search place url n) st xs)
     = trace st @ map ProcessingJob xs"
  by (induction xs arbitrary: st) (simp_all add: process_job_counts)

lemma tier_traces:
  "snd (tier1_optimization nav) = [TierAttempt 1]"
  "snd (tier2_fallback nav) = [TierAttempt 2]"
  "snd (tier3_full_fallback nav) = [TierAttempt 3]"
  "fst (tier3_full_fallback nav) = False"
  by (simp_all add: tier1_optimization_def tier2_fallback_def tier3_full_fallback_def
      log_first_def split: res.splits)

lemma started_Some: "started env data user_email \<Longrightarrow> \<exists>ud. data = Some ud"
  by (cases data) (simp_all add: started_def)

lemma run_automation_started:
  assumes "started env (Some ud) user_email"
      and "title = strip (jobTitle ud)"
      and "place = (if strip (user_location ud) \<noteq> [] then Some (strip (user_location ud)) else None)"
  shows "run_automation env (Some ud) user_email =
     (case reach_job_page (navigation env) of
        (None, tiers) \<Rightarrow> (run_failure FailedToReachJobPage, tiers)
      | (Some tier, tiers) \<Rightarrow>
          (case apply_to_jobs (jobs env) title place (landing (navigation env)) of
             Raise x \<Rightarrow> (run_failure (RunException x), tiers)
           | Ok (results, st) \<Rightarrow>
               (\<lparr>success = True, error = None,
                 job_title_searched = Some title,
                 location_searched = place,
                 tier_used = Some tier,
                 total_applications = Some (applications results),
                 applied_jobs = Some (loop_applied_jobs results),
                 message = Some (''Completed '' @ str_nat (applications results)
                   @ '' applications for '' @ title
                   @ (case place of None \<Rightarrow> [] | Some l \<Rightarrow> '' in '' @ l))\<rparr>,
                tiers @ trace st)))"
  using assms
  by (auto simp: started_def run_automation_def Let_def split: option.splits)

text \<open>
  C4. Tier 1 is attempted first; Tier 2 is attempted exactly when Tier 1 returned False;
  Tier 3 exactly when Tier 2 returned False too; the tier recorded is the first that
  returned True and no later tier is attempted; when all three return False a started
  run returns the failure result, and a successful run reports the recorded tier.
\<close>

theorem C4_tiers_in_order:
  "snd (reach_job_page nav) =
     TierAttempt 1 # (if fst (tier1_optimization nav) then []
       else TierAttempt 2 # (if fst (tier2_fallback nav) then [] else [TierAttempt 3]))
   \<and> (TierAttempt 2 \<in> set (snd (reach_job_page nav)) \<longleftrightarrow> \<not> fst (tier1_optimization nav))
   \<and> (TierAttempt 3 \<in> set (snd (reach_job_page nav)) \<longleftrightarrow>
        \<not> fst (tier1_optimization nav) \<and> \<not> fst (tier2_fallback nav))
   \<and> (fst (reach_job_page nav) = Some ''Tier 1'' \<longleftrightarrow> fst (tier1_optimization nav))
   \<and> (fst (reach_job_page nav) = Some ''Tier 2'' \<longleftrightarrow>
        \<not> fst (tier1_optimization nav) \<and> fst (tier2_fallback nav))
   \<and> (fst (reach_job_page nav) = Some ''Tier 3'' \<longleftrightarrow>
        \<not> fst (tier1_optimization nav) \<and> \<not> fst (tier2_fallback nav)
        \<and> fst (tier3_full_fallback nav))
   \<and> (fst (reach_job_page nav) = None \<longleftrightarrow>
        \<not> fst (tier1_optimization nav) \<and> \<not> fst (tier2_fallback nav)
        \<and> \<not> fst (tier3_full_fallback nav))
   \<and> (started env data user_email \<and> navigation env = nav \<and> fst (reach_job_page nav) = None \<longrightarrow>
        fst (run_automation env data user_email) = run_failure FailedToReachJobPage)
   \<and> (started env data user_email \<and> navigation env = nav
        \<and> success (fst (run_automation env data user_email)) \<longrightarrow>
        tier_used (fst (run_automation env data user_email)) = fst (reach_job_page nav))"
proof -
  have tr: "snd (reach_job_page nav) =
     TierAttempt 1 # (if fst (tier1_optimization nav) then []
       else TierAttempt 2 # (if fst (tier2_fallback nav) then [] else [TierAttempt 3]))"
    by (simp add: reach_job_page_def Let_def tier_traces)
  have used: "fst (reach_job_page nav) =
     (if fst (tier1_optimization nav) then Some ''Tier 1''
      else if fst (tier2_fallback nav) then Some ''Tier 2''
      else if fst (tier3_full_fallback nav) then Some ''Tier 3'' else None)"
    by (simp add: reach_job_page_def Let_def)
  have fail: "fst (run_automation env data user_email) = run_failure FailedToReachJobPage"
    if sd: "started env data user_email" and nv: "navigation env = nav"
      and no: "fst (reach_job_page nav) = None"
  proof -
    obtain ud where ud: "data = Some ud" using started_Some[OF sd] by blast
    define place where "place = (if strip (user_location ud) \<noteq> []
                                 then Some (strip (user_location ud)) else None)"
    note eq = run_automation_started[OF sd[unfolded ud] refl place_def]
    show ?thesis
      using nv no unfolding ud eq by (auto split: prod.splits)
  qed
  have ok: "tier_used (fst (run_automation env data user_email)) = fst (reach_job_page nav)"
    if sd: "started env data user_email" and nv: "navigation env = nav"
      and su: "success (fst (run_automation env data user_email))"
  proof -
    obtain ud where ud: "data = Some ud" using started_Some[OF sd] by blast
    define place where "place = (if strip (user_location ud) \<noteq> []
                                 then Some (strip (user_location ud)) else None)"
    note eq = run_automation_started[OF sd[unfolded ud] refl place_def]
    show ?thesis
      using nv su unfolding ud eq
      by (auto simp: run_failure_def split: prod.splits option.splits res.splits)
  qed
  show ?thesis
    unfolding tr using used fail ok by (simp add: tier_traces)
qed

lemma apply_to_jobs_counts:
  assumes "current_url b = Ok url"
      and "step_3_catalog_jobs (catalog env) b = Ok cat"
      and "total_jobs cat > 0"
  shows "\<exists>s st. apply_to_jobs env search place b = Ok (s, st)
     \<and> applications s = length (filter (counted env) [0..<total_jobs cat])
     \<and> loop_success s = (applications s > 0)
     \<and> map entry_index (loop_applied_jobs s) = filter (counted env) [0..<total_jobs cat]
     \<and> trace st = map ProcessingJob [0..<total_jobs cat]"
  using assms loop_counts[of env search place url "total_jobs cat"
      "\<lparr>applications_completed = 0, applied = [], driver = b, trace = []\<rparr>" "[0..<total_jobs cat]"]
  by (simp add: apply_to_jobs_def Let_def)

lemma upt_3: "[0..<3] = [0, 1, 2]"
  by (simp add: upt_rec)

text \<open>
  C3. With a catalog of three entries where entries 0 and 2 are applied to and entry 1
  is not (a step returned failure or raised), every index is processed, the loop counts
  two applications and reports success, and the run reports success, two applications
  and the applied entries 0 and 2.
\<close>

theorem C3_failed_entry_does_not_abort:
  assumes "started env data user_email"
      and "fst (reach_job_page (navigation env)) = Some tier"
      and "current_url (landing (navigation env)) = Ok url"
      and "step_3_catalog_jobs (catalog (jobs env)) (landing (navigation env)) = Ok cat"
      and "total_jobs cat = 3"
      and "counted (jobs env) 0" and "\<not> counted (jobs env) 1" and "counted (jobs env) 2"
  shows "success (fst (run_automation env data user_email))
       \<and> total_applications (fst (run_automation env data user_email)) = Some 2
       \<and> map_option (map entry_index) (applied_jobs (fst (run_automation env data user_email)))
           = Some [0, 2]
       \<and> snd (run_automation env data user_email)
           = snd (reach_job_page (navigation env)) @ map ProcessingJob [0, 1, 2]
       \<and> (\<exists>s st. apply_to_jobs (jobs env) search place (landing (navigation env)) = Ok (s, st)
             \<and> loop_success s \<and> applications s = 2)"
proof -
  have pos: "total_jobs cat > 0" using assms(5) by simp
  have f: "filter (counted (jobs env)) [0..<total_jobs cat] = [0, 2]"
    using assms(5-8) by (simp add: upt_3)
  have loop: "\<exists>s st. apply_to_jobs (jobs env) sr pl (landing (navigation env)) = Ok (s, st)
     \<and> applications s = 2 \<and> loop_success s
     \<and> map entry_index (loop_applied_jobs s) = [0, 2]
     \<and> trace st = map ProcessingJob [0, 1, 2]" for sr pl
    using apply_to_jobs_counts[OF assms(3,4) pos, of sr pl] f assms(5) by (auto simp: upt_3)
  obtain tiers where r: "reach_job_page (navigation env) = (Some tier, tiers)"
    using assms(2) by (cases "reach_job_page (navigation env)") simp
  obtain ud where ud: "data = Some ud" using started_Some[OF assms(1)] by blast
  define pl where "pl = (if strip (user_location ud) \<noteq> []
                         then Some (strip (user_location ud)) else None)"
  note eq = run_automation_started[OF assms(1)[unfolded ud] refl pl_def]
  from loop[of "strip (jobTitle ud)" pl] obtain s st where
    s: "apply_to_jobs (jobs env) (strip (jobTitle ud)) pl (landing (navigation env)) = Ok (s, st)
        \<and> applications s = 2 \<and> loop_success s
        \<and> map entry_index (loop_applied_jobs s) = [0, 2]
        \<and> trace st = map ProcessingJob [0, 1, 2]"
    by (elim exE)
  have run: "success (fst (run_automation env data user_email))
       \<and> total_applications (fst (run_automation env data user_email)) = Some 2
       \<and> map_option (map entry_index) (applied_jobs (fst (run_automation env data user_email)))
           = Some [0, 2]
       \<and> snd (run_automation env data user_email)
           = snd (reach_job_page (navigation env)) @ map ProcessingJob [0, 1, 2]"
    unfolding ud eq using s r by simp
  from run loop[of search place] show ?thesis by blast
qed

lemma strip_dev: "strip ''dev'' = ''dev''" "strip '''' = ''''"
  by (simp_all add: strip_def is_space_def)

lemma started_run_with: "started (run_with nav js) dev_search user_email_given"
  by (simp add: started_def run_with_def dev_search_def user_email_given_def strip_dev)

lemma results_browser_url: "current_url results_browser = Ok results_url"
  by (simp add: current_url_def results_browser_def)

lemma results_url_filters:
  "str_contains results_url ''filters.easyApply=true''"
  "str_contains results_url ''filters.postedDate=ONE''"
  by (simp_all add: results_url_def)

lemma three_listing_catalog: "length (find_all_job_elements three_listing_page) = 3"
  by (simp add: three_listing_page_def find_all_job_elements_def find_elements_def css_match_def
      job_detail_def sort_by_position_def get_attribute_href_def location_ok_def position_key_def)

lemma three_jobs_catalog:
  "step_3_catalog_jobs (catalog three_jobs) results_browser
     = Ok \<lparr>total_jobs = 3, page_url = results_url, filters_confirmed = True\<rparr>"
  using three_listing_catalog
  by (auto simp: step_3_catalog_jobs_def three_jobs_def results_browser_url results_url_filters Let_def)

lemma no_jobs_catalog:
  "step_3_catalog_jobs (catalog no_jobs) results_browser
     = Ok \<lparr>total_jobs = 0, page_url = results_url, filters_confirmed = True\<rparr>"
  by (simp add: step_3_catalog_jobs_def no_jobs_def results_browser_url results_url_filters)

lemma no_jobs_summary:
  "apply_to_jobs no_jobs search place results_browser
     = Ok (\<lparr>loop_success = False, applications = 0, loop_applied_jobs = []\<rparr>,
           \<lparr>applications_completed = 0, applied = [], driver = results_browser, trace = []\<rparr>)"
  by (simp add: apply_to_jobs_def results_browser_url no_jobs_catalog)

lemma three_jobs_counted:
  "counted three_jobs 0" "\<not> counted three_jobs 1" "counted three_jobs 2"
  by (simp_all add: counted_def three_jobs_def apply_phase_def applied_ok_def
      apply_click_fails_def step4_success_def)

lemma reach_concrete:
  "reach_job_page tier1_reaches = (Some ''Tier 1'', [TierAttempt 1])"
  "reach_job_page tier2_reaches = (Some ''Tier 2'', [TierAttempt 1, TierAttempt 2])"
  "reach_job_page no_tier_reaches = (None, [TierAttempt 1, TierAttempt 2, TierAttempt 3])"
  by (simp_all add: reach_job_page_def tier1_optimization_def tier2_fallback_def
      tier3_full_fallback_def log_first_def tier1_reaches_def tier2_reaches_def
      no_tier_reaches_def)

lemma run_with_fields:
  "navigation (run_with nav js) = nav" "jobs (run_with nav js) = js"
  by (simp_all add: run_with_def)

lemma landing_concrete:
  "landing tier1_reaches = results_browser" "landing tier2_reaches = results_browser"
  by (simp_all add: tier1_reaches_def tier2_reaches_def)

lemma str_nat_digit: "n < 10 \<Longrightarrow> str_nat n = [''0123456789'' ! n]"
  by (simp add: str_nat.simps)

lemma three_jobs_not_counted: "\<not> counted three_jobs (Suc 0)"
  using three_jobs_counted(2) by simp

lemma run_no_jobs:
  assumes "reach_job_page nav = (Some tier, tiers)" and "landing nav = results_browser"
  shows "run_automation (run_with nav no_jobs) dev_search user_email_given
     = (\<lparr>success = True, error = None, job_title_searched = Some ''dev'',
         location_searched = None, tier_used = Some tier, total_applications = Some 0,
         applied_jobs = Some [], message = Some ''Completed 0 applications for dev''\<rparr>, tiers)"
proof -
  note eq = run_automation_started[OF started_run_with[of nav no_jobs, unfolded dev_search_def]
      refl refl]
  show ?thesis
    unfolding dev_search_def eq
    by (simp add: assms strip_dev run_with_fields no_jobs_summary str_nat_digit)
qed

text \<open>
  C2 at the failing input: login succeeds, Tier 1 reaches the results page and the wait
  for a listing link times out. \<open>_apply_to_jobs\<close> returns success False with zero
  applications; \<open>run_automation\<close> drops that flag and returns success True with
  \<open>total_applications\<close> zero.
\<close>

theorem C2_zero_listings_reported_as_success:
  "apply_to_jobs no_jobs ''dev'' None results_browser
     = Ok (\<lparr>loop_success = False, applications = 0, loop_applied_jobs = []\<rparr>,
           \<lparr>applications_completed = 0, applied = [], driver = results_browser, trace = []\<rparr>)
   \<and> fst (run_automation (run_with tier1_reaches no_jobs) dev_search user_email_given)
     = \<lparr>success = True, error = None, job_title_searched = Some ''dev'',
        location_searched = None, tier_used = Some ''Tier 1'', total_applications = Some 0,
        applied_jobs = Some [], message = Some ''Completed 0 applications for dev''\<rparr>"
  by (simp add: no_jobs_summary run_no_jobs[OF reach_concrete(1) landing_concrete(1)])

lemma no_tier_run_started:
  "started (run_with no_tier_reaches no_jobs) dev_search user_email_given"
  by (rule started_run_with)

theorem C4_witness:
  "started (run_with no_tier_reaches no_jobs) dev_search user_email_given
   \<and> fst (reach_job_page no_tier_reaches) = None
   \<and> fst (run_automation (run_with no_tier_reaches no_jobs) dev_search user_email_given)
       = run_failure FailedToReachJobPage
   \<and> snd (reach_job_page no_tier_reaches) = [TierAttempt 1, TierAttempt 2, TierAttempt 3]
   \<and> started (run_with tier2_reaches no_jobs) dev_search user_email_given
   \<and> success (fst (run_automation (run_with tier2_reaches no_jobs) dev_search user_email_given))
   \<and> tier_used (fst (run_automation (run_with tier2_reaches no_jobs) dev_search user_email_given))
       = Some ''Tier 2''
   \<and> snd (reach_job_page tier2_reaches) = [TierAttempt 1, TierAttempt 2]"
proof -
  note fails = C4_tiers_in_order [of no_tier_reaches "run_with no_tier_reaches no_jobs"
      dev_search user_email_given, THEN conjunct2, THEN conjunct2, THEN conjunct2,
      THEN conjunct2, THEN conjunct2, THEN conjunct2, THEN conjunct2, THEN conjunct1, THEN mp]
  note used = C4_tiers_in_order [of tier2_reaches "run_with tier2_reaches no_jobs"
      dev_search user_email_given, THEN conjunct2, THEN conjunct2, THEN conjunct2,
      THEN conjunct2, THEN conjunct2, THEN conjunct2, THEN conjunct2, THEN conjunct2, THEN mp]
  have s2: "success (fst (run_automation (run_with tier2_reaches no_jobs) dev_search
      user_email_given))"
    by (simp add: run_no_jobs[OF reach_concrete(2) landing_concrete(2)])
  have 1: "fst (run_automation (run_with no_tier_reaches no_jobs) dev_search user_email_given)
       = run_failure FailedToReachJobPage"
    by (rule fails) (simp add: started_run_with run_with_fields reach_concrete)
  have 2: "tier_used (fst (run_automation (run_with tier2_reaches no_jobs) dev_search
      user_email_given)) = fst (reach_job_page tier2_reaches)"
    by (rule used) (simp add: started_run_with run_with_fields s2)
  show ?thesis
    using 1 2 s2 by (simp add: started_run_with reach_concrete)
qed

theorem C3_witness:
  "started (run_with tier1_reaches three_jobs) dev_search user_email_given
   \<and> fst (reach_job_page (navigation (run_with tier1_reaches three_jobs))) = Some ''Tier 1''
   \<and> current_url (landing (navigation (run_with tier1_reaches three_jobs))) = Ok results_url
   \<and> step_3_catalog_jobs (catalog (jobs (run_with tier1_reaches three_jobs)))
        (landing (navigation (run_with tier1_reaches three_jobs)))
       = Ok \<lparr>total_jobs = 3, page_url = results_url, filters_confirmed = True\<rparr>
   \<and> counted (jobs (run_with tier1_reaches three_jobs)) 0
   \<and> \<not> counted (jobs (run_with tier1_reaches three_jobs)) 1
   \<and> counted (jobs (run_with tier1_reaches three_jobs)) 2
   \<and> success (fst (run_automation (run_with tier1_reaches three_jobs) dev_search user_email_given))
   \<and> total_applications
        (fst (run_automation (run_with tier1_reaches three_jobs) dev_search user_email_given))
       = Some 2
   \<and> map_option (map entry_index) (applied_jobs
        (fst (run_automation (run_with tier1_reaches three_jobs) dev_search user_email_given)))
       = Some [0, 2]
   \<and> snd (run_automation (run_with tier1_reaches three_jobs) dev_search user_email_given)
       = [TierAttempt 1, ProcessingJob 0, ProcessingJob 1, ProcessingJob 2]"
  using C3_failed_entry_does_not_abort [of "run_with tier1_reaches three_jobs" dev_search
          user_email_given "''Tier 1''" results_url
          "\<lparr>total_jobs = 3, page_url = results_url, filters_confirmed = True\<rparr>" "''dev''" None]
  by (simp add: started_run_with reach_concrete run_with_fields landing_concrete
      results_browser_url three_jobs_catalog three_jobs_counted three_jobs_not_counted)

section \<open>Properties of the submission records\<close>

lemma starts_with_append: "starts_with (p @ s) p"
  by (induction p) auto

lemma random_choices_length: "length (random_choices rnd first k) = k"
  by (simp add: random_choices_def)

lemma random_choices_alphabet: "set (random_choices rnd first k) \<subseteq> set ref_alphabet"
proof -
  have "ref_alphabet ! (n mod length ref_alphabet) \<in> set ref_alphabet" for n
    by (rule nth_mem) (simp add: ref_alphabet_def)
  then show ?thesis by (auto simp: random_choices_def)
qed

lemma generate_simple_ref_form: "is_app_ref year (generate_simple_ref year rnd)"
proof -
  define p where "p = ''APP-'' @ str_nat year @ ''-''"
  have g: "generate_simple_ref year rnd = p @ random_choices rnd 0 6"
    by (simp add: p_def generate_simple_ref_def)
  have "starts_with (p @ random_choices rnd 0 6) p" by (rule starts_with_append)
  moreover have "length (p @ random_choices rnd 0 6) = length p + 6"
    by (simp add: random_choices_length)
  moreover have "list_all (\<lambda>c. c \<in> set ref_alphabet) (drop (length p) (p @ random_choices rnd 0 6))"
    using random_choices_alphabet[of rnd 0 6] by (auto simp: list_all_iff)
  ultimately show ?thesis
    unfolding is_app_ref_def g Let_def p_def[symmetric] by blast
qed

lemma insert_boards_rows:
  "insert_boards db uid rnd industry first boards = Ok db' \<Longrightarrow>
     \<exists>rows. application_stats db' = application_stats db @ rows
       \<and> length rows = length boards
       \<and> (\<forall>row\<in>set rows. length (app_ref row) = 8 \<and> set (app_ref row) \<subseteq> set ref_alphabet)"
proof (induction boards arbitrary: db first)
  case Nil
  then show ?case by simp
next
  case (Cons b rest)
  from Cons.prems obtain site where site: "site_name b = Some site"
    by (auto simp: Let_def split: option.splits)
  from Cons.prems have ie: "insert_error db = None"
    by (auto simp: Let_def split: option.splits)
  let ?row = "\<lparr>row_user_id = uid, app_ref = random_choices rnd first 8,
                platform = ''job-board-'' @ slug site,
                row_job_title = industry @ '' Position'',
                row_company = (case agency_name b of None \<Rightarrow> ''Agency'' | Some a \<Rightarrow> a),
                row_status = ''submitted''\<rparr>"
  let ?db1 = "db\<lparr>application_stats := application_stats db @ [?row]\<rparr>"
  have "insert_boards ?db1 uid rnd industry (first + 8) rest = Ok db'"
    using Cons.prems site ie by (simp add: Let_def)
  from Cons.IH[OF this] obtain rows where rows:
    "application_stats db' = application_stats ?db1 @ rows" "length rows = length rest"
    "\<forall>row\<in>set rows. length (app_ref row) = 8 \<and> set (app_ref row) \<subseteq> set ref_alphabet"
    by blast
  have "application_stats db' = application_stats db @ (?row # rows)"
    using rows(1) by simp
  moreover have "length (?row # rows) = length (b # rest)" using rows(2) by simp
  moreover have "\<forall>row\<in>set (?row # rows). length (app_ref row) = 8
      \<and> set (app_ref row) \<subseteq> set ref_alphabet"
    using rows(3) random_choices_alphabet[of rnd first 8] by (simp add: random_choices_length)
  ultimately show ?case by blast
qed

text \<open>
  C7 (as amended). \<open>log_application\<close>, once connected: when the user record does not
  exist it returns the failure dictionary and writes nothing; when it exists and the
  insert succeeds, the record logged carries a reference of the form
  \<open>APP-<year>-<6 uppercase letters or digits>\<close>. \<open>record_board_submissions\<close> returns
  False, not a dictionary, when the user record does not exist, and the records it logs
  carry a reference of 8 uppercase letters or digits with no prefix and no year.
\<close>

theorem C7_references_and_missing_user:
  "(connects db \<and> map_of (users db) user_email = None \<longrightarrow>
      log_application db year rnd user_email pf title company status
        = Ok (NotLogged UserNotFound, db))
   \<and> (connects db \<and> map_of (users db) user_email = Some uid \<and> insert_error db = None \<longrightarrow>
        (\<exists>db'. log_application db year rnd user_email pf title company status
                 = Ok (Logged (length (application_stats db) + 1)
                         (generate_simple_ref year rnd), db')
           \<and> app_ref (last (application_stats db')) = generate_simple_ref year rnd)
        \<and> is_app_ref year (generate_simple_ref year rnd))
   \<and> (map_of (users db) user_email = None \<longrightarrow>
        record_board_submissions db_available db rnd user_email industry boards = (False, db))
   \<and> (record_board_submissions db_available db rnd user_email industry boards = (True, db') \<longrightarrow>
        (\<exists>rows. application_stats db' = application_stats db @ rows
           \<and> length rows = length boards
           \<and> (\<forall>row\<in>set rows. length (app_ref row) = 8
                 \<and> set (app_ref row) \<subseteq> set ref_alphabet)))"
proof (intro conjI impI)
  assume "connects db \<and> map_of (users db) user_email = None"
  then show "log_application db year rnd user_email pf title company status
        = Ok (NotLogged UserNotFound, db)"
    by (simp add: log_application_def)
next
  assume "connects db \<and> map_of (users db) user_email = Some uid \<and> insert_error db = None"
  then show "\<exists>db'. log_application db year rnd user_email pf title company status
                 = Ok (Logged (length (application_stats db) + 1)
                         (generate_simple_ref year rnd), db')
           \<and> app_ref (last (application_stats db')) = generate_simple_ref year rnd"
    by (simp add: log_application_def Let_def)
next
  show "is_app_ref year (generate_simple_ref year rnd)" by (rule generate_simple_ref_form)
next
  assume "map_of (users db) user_email = None"
  then show "record_board_submissions db_available db rnd user_email industry boards = (False, db)"
    by (simp add: record_board_submissions_def)
next
  assume "record_board_submissions db_available db rnd user_email industry boards = (True, db')"
  then obtain uid' where "insert_boards db uid' rnd industry 0 boards = Ok db'"
    by (auto simp: record_board_submissions_def split: if_splits option.splits res.splits)
  then show "\<exists>rows. application_stats db' = application_stats db @ rows
           \<and> length rows = length boards
           \<and> (\<forall>row\<in>set rows. length (app_ref row) = 8
                 \<and> set (app_ref row) \<subseteq> set ref_alphabet)"
    by (rule insert_boards_rows)
qed

lemma staffing_submission:
  "record_board_submissions True one_user_db (\<lambda>i. 0) ''user@example.com'' ''Tech'' [staffing_board]
     = (True, one_user_db\<lparr>application_stats :=
          [\<lparr>row_user_id = 7, app_ref = ''AAAAAAAA'', platform = ''job-board-aps-staffing'',
            row_job_title = ''Tech Position'', row_company = ''Agency'',
            row_status = ''submitted''\<rparr>]\<rparr>)"
  by (simp add: record_board_submissions_def one_user_db_def staffing_board_def Let_def
      random_choices_def ref_alphabet_def slug_def lower_char_def upt_rec)

lemma str_nat_2024: "str_nat 2024 = ''2024''"
  by (simp add: str_nat.simps)

text \<open>
  C7 as stated fails for the records that \<open>record_board_submissions\<close> logs: the
  reference of a logged board submission is not of the form \<open>APP-<year>-<6 characters>\<close>.
\<close>

theorem C7_counterexample:
  "\<not> is_app_ref 2024 (app_ref (last (application_stats (snd
       (record_board_submissions True one_user_db (\<lambda>i. 0) ''user@example.com'' ''Tech''
          [staffing_board])))))"
  by (simp add: staffing_submission is_app_ref_def str_nat_2024)

theorem C7_witness:
  "connects (one_user_db\<lparr>users := []\<rparr>)
   \<and> map_of (users (one_user_db\<lparr>users := []\<rparr>)) ''user@example.com'' = None
   \<and> log_application (one_user_db\<lparr>users := []\<rparr>) 2024 (\<lambda>i. 0) ''user@example.com'' ''dice''
        ''Developer'' ''Acme'' ''submitted''
       = Ok (NotLogged UserNotFound, one_user_db\<lparr>users := []\<rparr>)
   \<and> connects one_user_db \<and> map_of (users one_user_db) ''user@example.com'' = Some 7
   \<and> insert_error one_user_db = None
   \<and> (\<exists>db'. log_application one_user_db 2024 (\<lambda>i. i) ''user@example.com'' ''dice''
               ''Developer'' ''Acme'' ''submitted''
             = Ok (Logged 1 ''APP-2024-ABCDEF'', db'))
   \<and> is_app_ref 2024 ''APP-2024-ABCDEF''
   \<and> record_board_submissions True (one_user_db\<lparr>users := []\<rparr>) (\<lambda>i. 0) ''user@example.com''
        ''Tech'' [staffing_board] = (False, one_user_db\<lparr>users := []\<rparr>)
   \<and> record_board_submissions True one_user_db (\<lambda>i. 0) ''user@example.com'' ''Tech''
        [staffing_board]
      = (True, snd (record_board_submissions True one_user_db (\<lambda>i. 0) ''user@example.com''
          ''Tech'' [staffing_board]))
   \<and> (\<exists>rows. application_stats (snd (record_board_submissions True one_user_db (\<lambda>i. 0)
          ''user@example.com'' ''Tech'' [staffing_board]))
          = application_stats one_user_db @ rows
        \<and> length rows = length [staffing_board]
        \<and> (\<forall>row\<in>set rows. length (app_ref row) = 8 \<and> set (app_ref row) \<subseteq> set ref_alphabet))"
proof -
  have r: "generate_simple_ref 2024 (\<lambda>i. i) = ''APP-2024-ABCDEF''"
    by (simp add: generate_simple_ref_def str_nat_2024 random_choices_def ref_alphabet_def upt_rec)
  note a = C7_references_and_missing_user [where db = "one_user_db\<lparr>users := []\<rparr>"
      and user_email = "''user@example.com''" and year = 2024 and rnd = "\<lambda>i. 0"
      and pf = "''dice''" and title = "''Developer''" and company = "''Acme''"
      and status = "''submitted''" and uid = 7 and db_available = True
      and industry = "''Tech''" and boards = "[staffing_board]"]
  note b = C7_references_and_missing_user [where db = one_user_db
      and user_email = "''user@example.com''" and year = 2024 and rnd = "\<lambda>i. i"
      and pf = "''dice''" and title = "''Developer''" and company = "''Acme''"
      and status = "''submitted''" and uid = 7]
  have u0: "connects (one_user_db\<lparr>users := []\<rparr>)
      \<and> map_of (users (one_user_db\<lparr>users := []\<rparr>)) ''user@example.com'' = None"
    by (simp add: one_user_db_def)
  have u1: "connects one_user_db \<and> map_of (users one_user_db) ''user@example.com'' = Some 7
      \<and> insert_error one_user_db = None"
    by (simp add: one_user_db_def)
  have 1: "log_application (one_user_db\<lparr>users := []\<rparr>) 2024 (\<lambda>i. 0) ''user@example.com'' ''dice''
        ''Developer'' ''Acme'' ''submitted''
       = Ok (NotLogged UserNotFound, one_user_db\<lparr>users := []\<rparr>)"
    by (rule a[THEN conjunct1, THEN mp]) (rule u0)
  have 2: "(\<exists>db'. log_application one_user_db 2024 (\<lambda>i. i) ''user@example.com'' ''dice''
               ''Developer'' ''Acme'' ''submitted''
             = Ok (Logged 1 ''APP-2024-ABCDEF'', db'))
      \<and> is_app_ref 2024 ''APP-2024-ABCDEF''"
    using b[THEN conjunct2, THEN conjunct1] u1 unfolding r
    by (auto simp: one_user_db_def)
  have 3: "record_board_submissions True (one_user_db\<lparr>users := []\<rparr>) (\<lambda>i. 0) ''user@example.com''
        ''Tech'' [staffing_board] = (False, one_user_db\<lparr>users := []\<rparr>)"
    by (rule a[THEN conjunct2, THEN conjunct2, THEN conjunct1, THEN mp]) (rule u0[THEN conjunct2])
  have h: "record_board_submissions True one_user_db (\<lambda>i. 0) ''user@example.com'' ''Tech''
        [staffing_board]
      = (True, snd (record_board_submissions True one_user_db (\<lambda>i. 0) ''user@example.com''
          ''Tech'' [staffing_board]))"
    by (simp add: staffing_submission)
  note c = C7_references_and_missing_user [where db = one_user_db
      and user_email = "''user@example.com''" and rnd = "\<lambda>i. 0" and db_available = True
      and industry = "''Tech''" and boards = "[staffing_board]"
      and db' = "snd (record_board_submissions True one_user_db (\<lambda>i. 0) ''user@example.com''
          ''Tech'' [staffing_board])",
      THEN conjunct2, THEN conjunct2, THEN conjunct2, THEN mp, OF h]
  from u0 1 u1 2 3 h c show ?thesis by (intro conjI) (elim conjE, assumption)+
qed

section \<open>Properties of the element resolvers\<close>

lemma fill_attempt_iff: "fst (fill_attempt env i) = field_accepts env i"
  by (auto simp: fill_attempt_def field_accepts_def log_first_def
      split: res.splits option.splits)

lemma fill_attempt_trace: "filter is_locate (snd (fill_attempt env i)) = []"
  by (auto simp: fill_attempt_def log_first_def is_locate_def split: res.splits option.splits)

lemma is_locate_Locate: "is_locate (Locate k)"
  by (simp add: is_locate_def)

lemma fill_loop_accepts: "fst (fill_loop env sels) = list_ex (field_accepts env) sels"
  by (induction sels) (simp_all add: Let_def fill_attempt_iff)

lemma fill_loop_order:
  "filter is_locate (snd (fill_loop env sels))
     = map Locate (upto_first (field_accepts env) sels)"
  by (induction sels) (simp_all add: Let_def fill_attempt_trace is_locate_Locate fill_attempt_iff)

lemma upto_first_none: "\<not> list_ex P xs \<Longrightarrow> upto_first P xs = xs"
  by (induction xs) auto

lemma find_none: "\<not> list_ex P xs \<Longrightarrow> find P xs = None"
  by (induction xs) auto

lemma span_contains_submit_Ok:
  "span_contains_submit spans = Ok f \<Longrightarrow>
     f = list_ex (\<lambda>t. case t of Ok s \<Rightarrow> str_contains (lower s) ''submit'' | Raise x \<Rightarrow> False) spans"
  by (induction spans) (auto split: res.splits if_splits)

lemma span_equals_submit_Ok:
  "span_equals_submit spans = Ok f \<Longrightarrow>
     f = list_ex (\<lambda>t. case t of Ok s \<Rightarrow> lower (strip s) = ''submit'' | Raise x \<Rightarrow> False) spans"
  by (induction spans) (auto split: res.splits if_splits)

lemma scan_css_find: "scan_css env bs = Ok r \<Longrightarrow> r = find (css_accepts env) bs"
proof (induction bs)
  case Nil
  then show ?case by simp
next
  case (Cons b rest)
  show ?case
  proof (cases "css_accepts env b")
    case True
    then show ?thesis
      using Cons.prems
      by (auto simp: css_accepts_def visible_enabled_def text_contains_submit_def
          span_with_submit_def btn_next_on_review_def
          split: res.splits if_splits option.splits dest: span_contains_submit_Ok)
  next
    case False
    then show ?thesis
      using Cons
      by (auto simp: css_accepts_def visible_enabled_def text_contains_submit_def
          span_with_submit_def btn_next_on_review_def
          split: res.splits if_splits option.splits dest: span_contains_submit_Ok)
  qed
qed

lemma scan_xpath_find: "scan_xpath bs = Ok r \<Longrightarrow> r = find visible_enabled bs"
  by (induction bs) (auto simp: visible_enabled_def split: res.splits if_splits)

lemma scan_all_find: "scan_all bs = Ok r \<Longrightarrow> r = find scan_accepts bs"
proof (induction bs)
  case Nil
  then show ?case by simp
next
  case (Cons b rest)
  show ?case
  proof (cases "scan_accepts b")
    case True
    then show ?thesis
      using Cons.prems
      by (auto simp: scan_accepts_def visible_enabled_def text_is_submit_def span_is_submit_def
          split: res.splits if_splits dest: span_equals_submit_Ok)
  next
    case False
    then show ?thesis
      using Cons
      by (auto simp: scan_accepts_def visible_enabled_def text_is_submit_def span_is_submit_def
          split: res.splits if_splits dest: span_equals_submit_Ok)
  qed
qed


lemma strategy_skipped: "strategy_raises env k \<Longrightarrow> strategy_result env k = None"
  by (auto simp: strategy_raises_def query_raises_def strategy_result_def raised_def
      strategy_candidates_def try_css_def try_xpath_def try_all_def
      split: res.splits if_splits)

lemma acceptable_cases:
  "k < 8 \<Longrightarrow> acceptable env k = css_accepts env"
  "8 \<le> k \<Longrightarrow> k < 14 \<Longrightarrow> acceptable env k = visible_enabled"
  "14 \<le> k \<Longrightarrow> acceptable env k = scan_accepts"
  by (auto simp: acceptable_def)

lemma strategy_finds:
  assumes "\<not> strategy_raises env k" and "k = 13 \<longrightarrow> wait_as_documented env"
  shows "strategy_result env k = find (acceptable env k) (strategy_candidates env k)"
proof -
  consider "k < 8" | "8 \<le> k" "k < 13" | "k = 13" | "13 < k" by linarith
  then show ?thesis
  proof cases
    case 1
    then show ?thesis
      using assms(1)
      by (auto simp: strategy_raises_def query_raises_def strategy_result_def raised_def
          strategy_candidates_def try_css_def acceptable_cases
          split: res.splits dest: scan_css_find)
  next
    case 2
    then show ?thesis
      using assms(1)
      by (auto simp: strategy_raises_def query_raises_def strategy_result_def raised_def
          strategy_candidates_def try_xpath_def acceptable_cases
          split: res.splits dest: scan_xpath_find)
  next
    case 3
    then show ?thesis
      using assms
      by (auto simp: strategy_raises_def query_raises_def strategy_result_def raised_def
          strategy_candidates_def acceptable_cases wait_as_documented_def
          split: res.splits)
  next
    case 4
    then show ?thesis
      using assms(1)
      by (auto simp: strategy_raises_def query_raises_def strategy_result_def raised_def
          strategy_candidates_def try_all_def acceptable_cases
          split: res.splits dest: scan_all_find)
  qed
qed

lemma span_contains_readable:
  "list_all (\<lambda>t. \<not> raised t) spans \<Longrightarrow> \<not> raised (span_contains_submit spans)"
  by (induction spans) (auto simp: raised_def split: res.splits)

lemma span_equals_readable:
  "list_all (\<lambda>t. \<not> raised t) spans \<Longrightarrow> \<not> raised (span_equals_submit spans)"
  by (induction spans) (auto simp: raised_def split: res.splits)

lemma scan_css_readable: "list_all readable bs \<Longrightarrow> \<not> raised (scan_css env bs)"
proof (induction bs)
  case Nil
  then show ?case by (simp add: raised_def)
next
  case (Cons b rest)
  then have r: "readable b" and ih: "\<not> raised (scan_css env rest)" by simp_all
  from r obtain s e t spans c where b: "shown b = Ok s" "enabled b = Ok e" "button_text b = Ok t"
      "span_texts b = Ok spans" "list_all (\<lambda>t. \<not> raised t) spans" "class_attr b = Ok (Some c)"
    by (auto simp: readable_def raised_def split: res.splits option.splits)
  from span_contains_readable[OF b(5)] obtain f where f: "span_contains_submit spans = Ok f"
    by (auto simp: raised_def split: res.splits)
  show ?case using b f ih by (simp add: raised_def)
qed

lemma scan_xpath_readable: "list_all readable bs \<Longrightarrow> \<not> raised (scan_xpath bs)"
  by (induction bs) (auto simp: readable_def raised_def split: res.splits)

lemma scan_all_readable: "list_all readable bs \<Longrightarrow> \<not> raised (scan_all bs)"
proof (induction bs)
  case Nil
  then show ?case by (simp add: raised_def)
next
  case (Cons b rest)
  then have r: "readable b" and ih: "\<not> raised (scan_all rest)" by simp_all
  from r obtain s e t spans where b: "shown b = Ok s" "enabled b = Ok e" "button_text b = Ok t"
      "span_texts b = Ok spans" "list_all (\<lambda>t. \<not> raised t) spans"
    by (auto simp: readable_def raised_def split: res.splits option.splits)
  from span_equals_readable[OF b(5)] obtain f where f: "span_equals_submit spans = Ok f"
    by (auto simp: raised_def split: res.splits)
  show ?case using b f ih by (simp add: raised_def)
qed

lemma readable_not_raises:
  "\<not> query_raises env k \<Longrightarrow> list_all readable (strategy_candidates env k)
     \<Longrightarrow> \<not> strategy_raises env k"
  by (simp add: strategy_raises_def scan_css_readable scan_xpath_readable scan_all_readable)

lemma wait_then_scan_first:
  assumes "wait_as_documented env"
  shows "wait_then_scan env =
     (Ok (case find (accepts env) [13, 14] of None \<Rightarrow> None | Some k \<Rightarrow> strategy_result env k),
      map Locate (upto_first (accepts env) [13, 14]))"
proof (cases "clickable_wait env")
  case (Ok b)
  then have "accepts env 13" "strategy_result env 13 = Some b"
    by (simp_all add: accepts_def strategy_result_def)
  then show ?thesis using Ok by (simp add: wait_then_scan_def)
next
  case (Raise x)
  then have x: "x = TimeoutException" using assms by (simp add: wait_as_documented_def)
  have n: "\<not> accepts env 13" using Raise by (simp add: accepts_def strategy_result_def)
  have r: "strategy_result env 14 = try_all env" by (simp add: strategy_result_def)
  show ?thesis
  proof (cases "try_all env")
    case None
    then have "\<not> accepts env 14" using r by (simp add: accepts_def)
    then show ?thesis using None n Raise x by (simp add: wait_then_scan_def)
  next
    case (Some b)
    then have "accepts env 14" using r by (simp add: accepts_def)
    then show ?thesis using Some r n Raise x by (simp add: wait_then_scan_def)
  qed
qed

lemma xpath_loop_first:
  assumes "wait_as_documented env" and "\<forall>j\<in>set js. j < 5"
  shows "xpath_loop env js =
     (Ok (case find (accepts env) (map (\<lambda>j. 8 + j) js @ [13, 14]) of
            None \<Rightarrow> None | Some k \<Rightarrow> strategy_result env k),
      map Locate (upto_first (accepts env) (map (\<lambda>j. 8 + j) js @ [13, 14])))"
  using assms(2)
proof (induction js)
  case Nil
  then show ?case using wait_then_scan_first[OF assms(1)] by simp
next
  case (Cons j rest)
  then have j: "j < 5" and ih: "xpath_loop env rest =
     (Ok (case find (accepts env) (map (\<lambda>j. 8 + j) rest @ [13, 14]) of
            None \<Rightarrow> None | Some k \<Rightarrow> strategy_result env k),
      map Locate (upto_first (accepts env) (map (\<lambda>j. 8 + j) rest @ [13, 14])))"
    by simp_all
  have r: "strategy_result env (8 + j) = try_xpath env j"
    using j by (simp add: strategy_result_def)
  show ?case
  proof (cases "try_xpath env j")
    case None
    then have "\<not> accepts env (8 + j)" using r by (simp add: accepts_def)
    then show ?thesis using None ih by (simp add: log_first_def)
  next
    case (Some b)
    then have "accepts env (8 + j)" using r by (simp add: accepts_def)
    then show ?thesis using Some r by (simp add: log_first_def)
  qed
qed

lemma css_loop_first:
  assumes "wait_as_documented env" and "\<forall>i\<in>set is. i < 8"
  shows "css_loop env is =
     (Ok (case find (accepts env) (is @ [8, 9, 10, 11, 12, 13, 14]) of
            None \<Rightarrow> None | Some k \<Rightarrow> strategy_result env k),
      map Locate (upto_first (accepts env) (is @ [8, 9, 10, 11, 12, 13, 14])))"
  using assms(2)
proof (induction "is")
  case Nil
  then show ?case using xpath_loop_first[OF assms(1), of "[0, 1, 2, 3, 4]"] by simp
next
  case (Cons i rest)
  then have i: "i < 8" and ih: "css_loop env rest =
     (Ok (case find (accepts env) (rest @ [8, 9, 10, 11, 12, 13, 14]) of
            None \<Rightarrow> None | Some k \<Rightarrow> strategy_result env k),
      map Locate (upto_first (accepts env) (rest @ [8, 9, 10, 11, 12, 13, 14])))"
    by simp_all
  have r: "strategy_result env i = try_css env i"
    using i by (simp add: strategy_result_def)
  show ?case
  proof (cases "try_css env i")
    case None
    then have "\<not> accepts env i" using r by (simp add: accepts_def)
    then show ?thesis using None ih by (simp add: log_first_def)
  next
    case (Some b)
    then have "accepts env i" using r by (simp add: accepts_def)
    then show ?thesis using Some r by (simp add: log_first_def)
  qed
qed

lemma find_submit_button_first:
  assumes "wait_as_documented env"
  shows "find_submit_button env =
     (Ok (first_accepted env), map Locate (upto_first (accepts env) strategy_order))"
proof -
  have so: "css_selectors @ [8, 9, 10, 11, 12, 13, 14] = strategy_order"
    by (simp add: css_selectors_def strategy_order_def)
  have "\<forall>i\<in>set css_selectors. i < 8" by (simp add: css_selectors_def)
  from css_loop_first[OF assms this] show ?thesis
    unfolding so by (simp add: find_submit_button_def first_accepted_def)
qed

lemma find_Some_holds: "find P xs = Some x \<Longrightarrow> P x \<and> x \<in> set xs"
  by (induction xs) (auto split: if_splits)

lemma strategy_result_visible:
  assumes "wait_as_documented env" and "strategy_result env k = Some b"
  shows "visible_enabled b"
proof -
  have nr: "\<not> strategy_raises env k" using assms(2) strategy_skipped[of env k] by auto
  have "find (acceptable env k) (strategy_candidates env k) = Some b"
    using strategy_finds[OF nr] assms by simp
  from find_Some_holds[OF this] show ?thesis
    by (auto simp: acceptable_def css_accepts_def scan_accepts_def split: if_splits)
qed

lemma first_accepted_visible:
  assumes "wait_as_documented env" and "first_accepted env = Some b"
  shows "visible_enabled b"
  using assms strategy_result_visible[OF assms(1)]
  by (auto simp: first_accepted_def split: option.splits)


text \<open>
  C6 (as amended). Both resolvers query their strategies in the listed order, each at
  most once, and stop at the first strategy that accepts; a strategy that raises accepts
  nothing and the next one is tried. \<open>_fill_field_by_multiple_strategies\<close> returns True
  exactly when the value is not empty and some selector accepts (element located,
  displayed, enabled, value typed and read back non-empty), and has then tried the
  selectors up to the first that accepts; otherwise it has tried them all and returns
  False. When the explicit wait returns a clickable button or times out,
  \<open>_find_submit_button\<close> returns the button of the first strategy that accepts, having
  queried the strategies up to that one, and returns None after querying them all when
  none accepts; a button it returns is displayed and enabled. A strategy that does not
  raise returns the first of its candidates that passes its test, which for the CSS
  strategies also asks for the text submit or for btn-next on the review page; a strategy
  whose query answers and whose candidates are all readable does not raise.
\<close>

theorem C6_strategies_in_order:
  "fst (fill_field_by_multiple_strategies fenv val sels)
     = (val \<noteq> [] \<and> list_ex (field_accepts fenv) sels)
   \<and> filter is_locate (snd (fill_field_by_multiple_strategies fenv val sels))
     = (if val = [] then [] else map Locate (upto_first (field_accepts fenv) sels))
   \<and> (wait_as_documented env \<longrightarrow>
        find_submit_button env
          = (Ok (first_accepted env), map Locate (upto_first (accepts env) strategy_order)))
   \<and> (wait_as_documented env \<and> \<not> list_ex (accepts env) strategy_order \<longrightarrow>
        find_submit_button env = (Ok None, map Locate strategy_order))
   \<and> (wait_as_documented env \<and> fst (find_submit_button env) = Ok (Some b) \<longrightarrow>
        visible_enabled b)
   \<and> (strategy_raises env k \<longrightarrow> \<not> accepts env k)
   \<and> (\<not> strategy_raises env k \<and> (k = 13 \<longrightarrow> wait_as_documented env) \<longrightarrow>
        strategy_result env k = find (acceptable env k) (strategy_candidates env k))
   \<and> (\<not> query_raises env k \<and> list_all readable (strategy_candidates env k) \<longrightarrow>
        \<not> strategy_raises env k)"
proof -
  have f1: "fst (fill_field_by_multiple_strategies fenv val sels)
     = (val \<noteq> [] \<and> list_ex (field_accepts fenv) sels)"
    by (simp add: fill_field_by_multiple_strategies_def fill_loop_accepts)
  have f2: "filter is_locate (snd (fill_field_by_multiple_strategies fenv val sels))
     = (if val = [] then [] else map Locate (upto_first (field_accepts fenv) sels))"
    by (simp add: fill_field_by_multiple_strategies_def fill_loop_order)
  have s1: "wait_as_documented env \<longrightarrow>
        find_submit_button env
          = (Ok (first_accepted env), map Locate (upto_first (accepts env) strategy_order))"
    using find_submit_button_first[of env] by blast
  have s2: "wait_as_documented env \<and> \<not> list_ex (accepts env) strategy_order \<longrightarrow>
        find_submit_button env = (Ok None, map Locate strategy_order)"
    using find_submit_button_first[of env]
    by (simp add: first_accepted_def find_none upto_first_none)
  have s3: "wait_as_documented env \<and> fst (find_submit_button env) = Ok (Some b) \<longrightarrow>
        visible_enabled b"
    using find_submit_button_first[of env] first_accepted_visible[of env b] by auto
  have s4: "strategy_raises env k \<longrightarrow> \<not> accepts env k"
    using strategy_skipped[of env k] by (simp add: accepts_def)
  have s5: "\<not> strategy_raises env k \<and> (k = 13 \<longrightarrow> wait_as_documented env) \<longrightarrow>
        strategy_result env k = find (acceptable env k) (strategy_candidates env k)"
    using strategy_finds[of env k] by blast
  have s6: "\<not> query_raises env k \<and> list_all readable (strategy_candidates env k) \<longrightarrow>
        \<not> strategy_raises env k"
    using readable_not_raises[of env k] by blast
  from f1 f2 s1 s2 s3 s4 s5 s6 show ?thesis by blast
qed

lemma lower_next: "lower (strip ''Next'') = ''next''" "lower (strip ''Submit'') = ''submit''"
  by (simp_all add: lower_def strip_def is_space_def lower_char_def)

lemma next_before_submit_found:
  "find_submit_button next_before_submit
     = (Ok (Some submit_button), map Locate [2, 3, 4, 5, 7, 8])"
  by (simp add: find_submit_button_def css_selectors_def next_before_submit_def try_css_def
      try_xpath_def log_first_def next_button_def submit_button_def lower_next)

lemma next_before_submit_first:
  "first_visible_enabled next_before_submit = Some next_button"
  by (simp add: first_visible_enabled_def strategy_candidates_def next_before_submit_def
      visible_enabled_def next_button_def upt_rec)

text \<open>
  C6 as stated fails: the CSS strategies of \<open>_find_submit_button\<close> also require the
  text Submit (or the class btn-next on the review page), so the first candidate that is
  present, visible and enabled, a Next button, is not the button returned.
\<close>

theorem C6_counterexample:
  "fst (find_submit_button next_before_submit) \<noteq> Ok (first_visible_enabled next_before_submit)"
  by (simp add: next_before_submit_found next_before_submit_first next_button_def
      submit_button_def)

lemma email_field_accepts:
  "\<not> field_accepts email_field 0" "\<not> field_accepts email_field (Suc 0)"
  "field_accepts email_field 2"
  by (simp_all add: field_accepts_def email_field_def)

lemma next_before_submit_results:
  "strategy_result next_before_submit 2 = None"
  "strategy_result next_before_submit 3 = None"
  "strategy_result next_before_submit 4 = None"
  "strategy_result next_before_submit 5 = None"
  "strategy_result next_before_submit 7 = None"
  "strategy_result next_before_submit 8 = Some submit_button"
  by (simp_all add: strategy_result_def next_before_submit_def try_css_def try_xpath_def
      next_button_def submit_button_def lower_next)

lemma next_before_submit_first_accepted:
  "first_accepted next_before_submit = Some submit_button"
  "upto_first (accepts next_before_submit) strategy_order = [2, 3, 4, 5, 7, 8]"
  by (simp_all add: first_accepted_def strategy_order_def accepts_def next_before_submit_results)

lemma no_button_page_results:
  "\<not> list_ex (accepts no_button_page) strategy_order"
  by (simp add: strategy_order_def accepts_def strategy_result_def no_button_page_def
      try_css_def try_xpath_def try_all_def)

lemma next_button_candidate:
  "strategy_candidates next_before_submit 3 = [next_button]"
  "\<not> query_raises next_before_submit 3"
  "readable next_button"
  "\<not> acceptable next_before_submit 3 next_button"
  by (simp_all add: strategy_candidates_def query_raises_def raised_def next_before_submit_def
      readable_def next_button_def acceptable_def css_accepts_def text_contains_submit_def
      span_with_submit_def btn_next_on_review_def lower_next)

lemma no_button_page_raises: "strategy_raises no_button_page 2"
  by (simp add: strategy_raises_def query_raises_def raised_def no_button_page_def)

lemma documented_waits:
  "wait_as_documented no_button_page" "wait_as_documented next_before_submit"
  "visible_enabled submit_button"
  by (simp_all add: wait_as_documented_def no_button_page_def next_before_submit_def
      visible_enabled_def submit_button_def)

theorem C6_witness:
  "fst (fill_field_by_multiple_strategies email_field ''user@example.com'' [0, 1, 2, 3])
   \<and> filter is_locate (snd (fill_field_by_multiple_strategies email_field ''user@example.com''
        [0, 1, 2, 3])) = map Locate [0, 1, 2]
   \<and> wait_as_documented next_before_submit
   \<and> find_submit_button next_before_submit
       = (Ok (Some submit_button), map Locate [2, 3, 4, 5, 7, 8])
   \<and> visible_enabled submit_button
   \<and> wait_as_documented no_button_page
   \<and> \<not> list_ex (accepts no_button_page) strategy_order
   \<and> find_submit_button no_button_page = (Ok None, map Locate strategy_order)
   \<and> strategy_raises no_button_page 2 \<and> \<not> accepts no_button_page 2
   \<and> \<not> query_raises next_before_submit 3
   \<and> list_all readable (strategy_candidates next_before_submit 3)
   \<and> \<not> strategy_raises next_before_submit 3
   \<and> strategy_result next_before_submit 3 = None"
proof -
  note a = C6_strategies_in_order [of email_field "''user@example.com''" "[0, 1, 2, 3]"
      next_before_submit submit_button 3]
  note c = C6_strategies_in_order [of email_field "''user@example.com''" "[0, 1, 2, 3]"
      no_button_page submit_button 2]
  have r1: "fst (fill_field_by_multiple_strategies email_field ''user@example.com'' [0, 1, 2, 3])"
    unfolding a[THEN conjunct1] by (simp add: email_field_accepts)
  have r2: "filter is_locate (snd (fill_field_by_multiple_strategies email_field
        ''user@example.com'' [0, 1, 2, 3])) = map Locate [0, 1, 2]"
    unfolding a[THEN conjunct2, THEN conjunct1] by (simp add: email_field_accepts)
  have r3: "find_submit_button next_before_submit
       = (Ok (Some submit_button), map Locate [2, 3, 4, 5, 7, 8])"
    using a[THEN conjunct2, THEN conjunct2, THEN conjunct1, THEN mp, OF documented_waits(2)]
    by (simp add: next_before_submit_first_accepted)
  have r4: "visible_enabled submit_button"
    by (rule a[THEN conjunct2, THEN conjunct2, THEN conjunct2, THEN conjunct2, THEN conjunct1,
          THEN mp]) (simp add: documented_waits(2) r3)
  have r5: "find_submit_button no_button_page = (Ok None, map Locate strategy_order)"
    by (rule c[THEN conjunct2, THEN conjunct2, THEN conjunct2, THEN conjunct1, THEN mp])
      (simp add: documented_waits(1) no_button_page_results)
  have r6: "\<not> accepts no_button_page 2"
    by (rule c[THEN conjunct2, THEN conjunct2, THEN conjunct2, THEN conjunct2, THEN conjunct2,
          THEN conjunct1, THEN mp]) (rule no_button_page_raises)
  have r7: "\<not> strategy_raises next_before_submit 3"
    by (rule a[THEN conjunct2, THEN conjunct2, THEN conjunct2, THEN conjunct2, THEN conjunct2,
          THEN conjunct2, THEN conjunct2, THEN mp])
      (simp add: next_button_candidate)
  have r8: "strategy_result next_before_submit 3
       = find (acceptable next_before_submit 3) (strategy_candidates next_before_submit 3)"
    by (rule a[THEN conjunct2, THEN conjunct2, THEN conjunct2, THEN conjunct2, THEN conjunct2,
          THEN conjunct2, THEN conjunct1, THEN mp])
      (simp add: r7)
  have r9: "strategy_result next_before_submit 3 = None"
    unfolding r8 by (simp add: next_button_candidate)
  from r1 r2 r3 r4 r5 r6 r7 r9 show ?thesis
    by (simp add: documented_waits no_button_page_results no_button_page_raises
        next_button_candidate)
qed

text \<open>
  Only TimeoutException is caught around the explicit wait: another exception raised
  there leaves \<open>_find_submit_button\<close>, which is why the statement above asks for a wait
  that returns a clickable button or times out.
\<close>

lemma wait_error_escapes:
  "find_submit_button (no_button_page\<lparr>clickable_wait := Raise StaleElementReferenceException\<rparr>)
     = (Raise StaleElementReferenceException, map Locate [2, 3, 4, 5, 7, 8, 9, 10, 11, 12, 13])"
  by (simp add: find_submit_button_def css_selectors_def no_button_page_def try_css_def
      try_xpath_def wait_then_scan_def log_first_def)

section \<open>Properties of filling the candidate form\<close>

lemma filled_plus_missing:
  "length (filter (\<lambda>f. f \<in> set (filled_fields env)) required_fields)
     + length (missing_fields env) = 4"
  using sum_length_filter_compl[of "\<lambda>f. f \<in> set (filled_fields env)" required_fields]
  by (simp add: missing_fields_def required_fields_def)

lemma form_result:
  "reaches_check env \<Longrightarrow>
     fill_job_candidate_form env = (length (missing_fields env) \<le> 1)"
  by (auto simp: reaches_check_def fill_job_candidate_form_def missing_fields_def Let_def)

lemma form_two_missing:
  "2 \<le> length (missing_fields env) \<Longrightarrow> \<not> fill_job_candidate_form env"
  by (auto simp: fill_job_candidate_form_def missing_fields_def Let_def
      split: res.splits option.splits bool.splits)

lemma form_not_reached: "\<not> reaches_check env \<Longrightarrow> \<not> fill_job_candidate_form env"
  by (auto simp: reaches_check_def fill_job_candidate_form_def Let_def
      split: res.splits option.splits bool.splits)

text \<open>
  C5 (as amended). The required fields are the four contact fields. When the form was
  found and no stop was requested, a form with exactly one required field missing (three
  of the four filled) is reported as success; with two or more required fields missing
  the function returns False on every path; and when the form was not found or a stop was
  requested (or the stop callback raised) it returns False whatever was filled.
\<close>

theorem C5_one_missing_field_tolerated:
  "(reaches_check env \<and> length (missing_fields env) = 1 \<longrightarrow>
      fill_job_candidate_form env
      \<and> length (filter (\<lambda>f. f \<in> set (filled_fields env)) required_fields) = 3)
   \<and> (2 \<le> length (missing_fields env) \<longrightarrow> \<not> fill_job_candidate_form env)
   \<and> (\<not> reaches_check env \<longrightarrow> \<not> fill_job_candidate_form env)"
  using form_result[of env] form_two_missing[of env] filled_plus_missing[of env]
    form_not_reached[of env]
  by auto

lemma contact_filled_form_missing:
  "contact_filled (form_missing absent stop) f = (f \<notin> set absent)"
  by (simp add: contact_filled_def form_missing_def fill_field_by_multiple_strategies_def
      contact_selectors_def accepting_field_def unresolvable_field_def fill_attempt_def
      log_first_def Let_def)

lemma resume_form_missing: "resume_path (form_missing absent stop) = None"
  by (simp add: form_missing_def)

lemma missing_form_missing:
  "missing_fields (form_missing [Phone] stop) = [Phone]"
  "missing_fields (form_missing [Email, Phone] stop) = [Email, Phone]"
  by (simp_all add: missing_fields_def filled_fields_def contact_filled_form_missing
      required_fields_def resume_form_missing)

lemma reaches_form_missing:
  "reaches_check (form_missing absent None)"
  "reaches_check (form_missing absent (Some (Ok False)))"
  "\<not> reaches_check (form_missing absent (Some (Ok True)))"
  by (simp_all add: reaches_check_def form_missing_def)

theorem C5_witness:
  "reaches_check (form_missing [Phone] None)
   \<and> length (missing_fields (form_missing [Phone] None)) = 1
   \<and> fill_job_candidate_form (form_missing [Phone] None)
   \<and> length (filter (\<lambda>f. f \<in> set (filled_fields (form_missing [Phone] None))) required_fields)
       = 3
   \<and> 2 \<le> length (missing_fields (form_missing [Email, Phone] None))
   \<and> \<not> fill_job_candidate_form (form_missing [Email, Phone] None)
   \<and> \<not> reaches_check (form_missing [] (Some (Ok True)))
   \<and> \<not> fill_job_candidate_form (form_missing [] (Some (Ok True)))"
  using C5_one_missing_field_tolerated [of "form_missing [Phone] None"]
        C5_one_missing_field_tolerated [of "form_missing [Email, Phone] None"]
        C5_one_missing_field_tolerated [of "form_missing [] (Some (Ok True))"]
  by (simp add: missing_form_missing reaches_form_missing)

text \<open>
  C5 as stated fails when a stop is requested: exactly one required field could not be
  located and the other three are filled, yet the function returns False.
\<close>

theorem C5_counterexample:
  "length (missing_fields (form_missing [Phone] (Some (Ok True)))) = 1
   \<and> length (filter (\<lambda>f. f \<in> set (filled_fields (form_missing [Phone] (Some (Ok True)))))
        required_fields) = 3
   \<and> \<not> fill_job_candidate_form (form_missing [Phone] (Some (Ok True)))"
proof -
  have m: "length (missing_fields (form_missing [Phone] (Some (Ok True)))) = 1"
    by (simp add: missing_form_missing)
  have f: "length (filter (\<lambda>f. f \<in> set (filled_fields (form_missing [Phone] (Some (Ok True)))))
        required_fields) = 3"
    using filled_plus_missing[of "form_missing [Phone] (Some (Ok True))"] m by simp
  have n: "\<not> fill_job_candidate_form (form_missing [Phone] (Some (Ok True)))"
    by (rule form_not_reached) (rule reaches_form_missing(3))
  from m f n show ?thesis by (intro conjI)
qed

end
